theory Spec2Isabelle
  imports Main "HOL-Library.Word"
begin

unbundle bit_operations_syntax

section \<open>Common types\<close>

type_synonym byte = "8 word"

text \<open>Errors returned by the packages \<open>stream\<close>, \<open>cos\<close> and \<open>ttf\<close>, one constructor for each
  \<open>fmt.Errorf\<close> of the functions embedded below.\<close>

datatype error =
    InvalidLZWCode nat
  | UnsupportedFilter string
  | UnsupportedPredictor int
  | LZWNotImplemented
  | FilterFailed string error
  | ObjectNotInXref int
  | ParseObjectFailed int error
  | ObjectStreamFailed int error
  | NotAStream int
  | DecodeObjectStreamFailed error
  | ParseObjectStreamFailed error
  | NotInObjectStream int int
  | ExpectedDict
  | ExpectedArray
  | PageNotFound
  | PagesWithoutKids
  | PageNumberNotFound int
  | ExternalError string

section \<open>Package stream: RunLengthDecode\<close>

text \<open>\<open>DecodeRunLength\<close> (filters.go): the loop \<open>for i < len(data)\<close> with the index \<open>i\<close> and the
  slice \<open>result\<close> as loop state.\<close>

function DecodeRunLength_loop :: "byte list \<Rightarrow> nat \<Rightarrow> byte list \<Rightarrow> byte list" where
  "DecodeRunLength_loop data i result =
     (if i < length data then
        (if unat (data ! i) = 128 then result
         else if unat (data ! i) < 128 then
           (if (i + 1) + (unat (data ! i) + 1) > length data
            then DecodeRunLength_loop data ((i + 1) + (length data - (i + 1)))
                   (result @ take (length data - (i + 1)) (drop (i + 1) data))
            else DecodeRunLength_loop data ((i + 1) + (unat (data ! i) + 1))
                   (result @ take (unat (data ! i) + 1) (drop (i + 1) data)))
         else if i + 1 \<ge> length data then result
         else DecodeRunLength_loop data (i + 2)
                (result @ replicate (257 - unat (data ! i)) (data ! (i + 1))))
      else result)"
  by pat_completeness auto
termination
  by (relation "measure (\<lambda>(data, i, result). length data - i)") auto

definition DecodeRunLength :: "byte list \<Rightarrow> error + byte list" where
  "DecodeRunLength data = Inr (DecodeRunLength_loop data 0 [])"

text \<open>The decoding rule in the words of the specification, by recursion on the input: the
  first byte is the length byte \<open>n\<close>.\<close>

function RunLength_spec :: "byte list \<Rightarrow> byte list" where
  "RunLength_spec [] = []"
| "RunLength_spec (n # rest) =
     (if unat n = 128 then []
      else if unat n \<le> 127 then take (unat n + 1) rest @ RunLength_spec (drop (unat n + 1) rest)
      else (case rest of
              [] \<Rightarrow> []
            | b # rest' \<Rightarrow> replicate (257 - unat n) b @ RunLength_spec rest'))"
  by pat_completeness auto
termination
  by (relation "measure length") auto

section \<open>Package graphics: matrices, paths, colours\<close>

text \<open>The type variable \<open>'a\<close> stands for \<open>float64\<close>. Its \<open>+\<close>, \<open>*\<close>, \<open>-\<close> and \<open><\<close> stand for the
  floating-point operations of Go; only the syntactic classes are required, so no algebraic
  law (associativity, distributivity) is assumed anywhere in the embedding.

  \<open>Matrix\<close> is \<open>[6]float64\<close>, the rows \<open>[A B 0] [C D 0] [E F 1]\<close>.\<close>

datatype 'a Matrix = Matrix 'a 'a 'a 'a 'a 'a

definition Identity :: "'a::{zero,one} Matrix" where
  "Identity = Matrix 1 0 0 1 0 0"

definition Translate :: "'a::{zero,one} \<Rightarrow> 'a \<Rightarrow> 'a Matrix" where
  "Translate tx ty = Matrix 1 0 0 1 tx ty"

text \<open>\<open>Multiply\<close>: "result = m * other".\<close>

fun Multiply :: "'a::{plus,times} Matrix \<Rightarrow> 'a Matrix \<Rightarrow> 'a Matrix" where
  "Multiply (Matrix m0 m1 m2 m3 m4 m5) (Matrix o0 o1 o2 o3 o4 o5) =
     Matrix (m0 * o0 + m1 * o2)
            (m0 * o1 + m1 * o3)
            (m2 * o0 + m3 * o2)
            (m2 * o1 + m3 * o3)
            (m4 * o0 + m5 * o2 + o4)
            (m4 * o1 + m5 * o3 + o5)"

text \<open>\<open>Concat\<close>: "m = other * m".\<close>

definition Concat :: "'a::{plus,times} Matrix \<Rightarrow> 'a Matrix \<Rightarrow> 'a Matrix" where
  "Concat m other = Multiply other m"

fun Transform :: "'a::{plus,times} Matrix \<Rightarrow> 'a \<Rightarrow> 'a \<Rightarrow> 'a \<times> 'a" where
  "Transform (Matrix m0 m1 m2 m3 m4 m5) x y = (m0 * x + m2 * y + m4, m1 * x + m3 * y + m5)"

record 'a Point =
  X :: 'a
  Y :: 'a

definition Point0 :: "'a::zero Point" where
  "Point0 = \<lparr>X = 0, Y = 0\<rparr>"

definition TransformPoint :: "'a::{plus,times} Matrix \<Rightarrow> 'a Point \<Rightarrow> 'a Point" where
  "TransformPoint m p = (case Transform m (X p) (Y p) of (x, y) \<Rightarrow> \<lparr>X = x, Y = y\<rparr>)"

datatype PathOp = PathOpMoveTo | PathOpLineTo | PathOpCurveTo | PathOpClose

record 'a PathSegment =
  Op :: PathOp
  Points :: "'a Point list"

record 'a Path =
  Segments :: "'a PathSegment list"
  current :: "'a Point"
  start :: "'a Point"

definition NewPath :: "'a::zero Path" where
  "NewPath = \<lparr>Segments = [], current = Point0, start = Point0\<rparr>"

text \<open>\<open>Path.Clone\<close> allocates new slices and copies every segment and point; on values the copy
  is rebuilt element by element.\<close>

definition Path_Clone :: "'a Path \<Rightarrow> 'a Path" where
  "Path_Clone p =
     \<lparr>Segments = map (\<lambda>seg. \<lparr>Op = Op seg, Points = map (\<lambda>pt. pt) (Points seg)\<rparr>) (Segments p),
      current = current p, start = start p\<rparr>"

definition MoveTo :: "'a \<Rightarrow> 'a \<Rightarrow> 'a Path \<Rightarrow> 'a Path" where
  "MoveTo x y p =
     p\<lparr>Segments := Segments p @ [\<lparr>Op = PathOpMoveTo, Points = [\<lparr>X = x, Y = y\<rparr>]\<rparr>],
       current := \<lparr>X = x, Y = y\<rparr>, start := \<lparr>X = x, Y = y\<rparr>\<rparr>"

definition LineTo :: "'a \<Rightarrow> 'a \<Rightarrow> 'a Path \<Rightarrow> 'a Path" where
  "LineTo x y p =
     p\<lparr>Segments := Segments p @ [\<lparr>Op = PathOpLineTo, Points = [\<lparr>X = x, Y = y\<rparr>]\<rparr>],
       current := \<lparr>X = x, Y = y\<rparr>\<rparr>"

definition CurveTo :: "'a \<Rightarrow> 'a \<Rightarrow> 'a \<Rightarrow> 'a \<Rightarrow> 'a \<Rightarrow> 'a \<Rightarrow> 'a Path \<Rightarrow> 'a Path" where
  "CurveTo cp1x cp1y cp2x cp2y endX endY p =
     p\<lparr>Segments := Segments p @
          [\<lparr>Op = PathOpCurveTo,
            Points = [\<lparr>X = cp1x, Y = cp1y\<rparr>, \<lparr>X = cp2x, Y = cp2y\<rparr>, \<lparr>X = endX, Y = endY\<rparr>]\<rparr>],
       current := \<lparr>X = endX, Y = endY\<rparr>\<rparr>"

definition CurveToV :: "'a \<Rightarrow> 'a \<Rightarrow> 'a \<Rightarrow> 'a \<Rightarrow> 'a Path \<Rightarrow> 'a Path" where
  "CurveToV cp2x cp2y endX endY p = CurveTo (X (current p)) (Y (current p)) cp2x cp2y endX endY p"

definition CurveToY :: "'a \<Rightarrow> 'a \<Rightarrow> 'a \<Rightarrow> 'a \<Rightarrow> 'a Path \<Rightarrow> 'a Path" where
  "CurveToY cp1x cp1y endX endY p = CurveTo cp1x cp1y endX endY endX endY p"

definition Close :: "'a Path \<Rightarrow> 'a Path" where
  "Close p = p\<lparr>Segments := Segments p @ [\<lparr>Op = PathOpClose, Points = []\<rparr>], current := start p\<rparr>"

definition Rect :: "'a::plus \<Rightarrow> 'a \<Rightarrow> 'a \<Rightarrow> 'a \<Rightarrow> 'a Path \<Rightarrow> 'a Path" where
  "Rect x y width height p =
     Close (LineTo x (y + height) (LineTo (x + width) (y + height) (LineTo (x + width) y (MoveTo x y p))))"

definition Clear :: "'a::zero Path \<Rightarrow> 'a Path" where
  "Clear p = p\<lparr>Segments := [], current := Point0, start := Point0\<rparr>"

definition Path_Transform :: "'a::{zero,plus,times} Path \<Rightarrow> 'a Matrix \<Rightarrow> 'a Path" where
  "Path_Transform p m =
     (let segs = map (\<lambda>seg. \<lparr>Op = Op seg, Points = map (TransformPoint m) (Points seg)\<rparr>) (Segments p)
      in if length (Segments p) > 0
         then \<lparr>Segments = segs, current = TransformPoint m (current p), start = TransformPoint m (start p)\<rparr>
         else \<lparr>Segments = segs, current = Point0, start = Point0\<rparr>)"

datatype FillRule = FillRuleNonZero | FillRuleEvenOdd

record 'a Color =
  Space :: string
  Components :: "'a list"

definition clamp :: "'a::ord \<Rightarrow> 'a \<Rightarrow> 'a \<Rightarrow> 'a" where
  "clamp v mn mx = (if v < mn then mn else if v > mx then mx else v)"

definition NewGray :: "'a::{zero,one,ord} \<Rightarrow> 'a Color" where
  "NewGray gray = \<lparr>Space = ''DeviceGray'', Components = [clamp gray 0 1]\<rparr>"

definition NewRGB :: "'a::{zero,one,ord} \<Rightarrow> 'a \<Rightarrow> 'a \<Rightarrow> 'a Color" where
  "NewRGB r g b = \<lparr>Space = ''DeviceRGB'', Components = [clamp r 0 1, clamp g 0 1, clamp b 0 1]\<rparr>"

definition NewCMYK :: "'a::{zero,one,ord} \<Rightarrow> 'a \<Rightarrow> 'a \<Rightarrow> 'a \<Rightarrow> 'a Color" where
  "NewCMYK c m y k =
     \<lparr>Space = ''DeviceCMYK'', Components = [clamp c 0 1, clamp m 0 1, clamp y 0 1, clamp k 0 1]\<rparr>"

definition Black :: "'a::{zero,one,ord} Color" where
  "Black = NewGray 0"


section \<open>Package graphics: graphics state and state stack\<close>

record 'a TextState =
  CharSpace :: 'a
  WordSpace :: 'a
  HScale :: 'a
  Leading :: 'a
  FontName :: string
  FontSize :: 'a
  RenderMode :: int
  Rise :: 'a
  TextMatrix :: "'a Matrix"
  LineMatrix :: "'a Matrix"

text \<open>\<open>State\<close>. The pointer \<open>ClipPath\<close> and the slice \<open>DashPattern\<close> may be nil, hence the options.\<close>

record 'a State =
  CTM :: "'a Matrix"
  ClipPath :: "'a Path option"
  StrokeColor :: "'a Color"
  FillColor :: "'a Color"
  StrokeColorSpace :: string
  FillColorSpace :: string
  LineWidth :: 'a
  LineCap :: int
  LineJoin :: int
  MiterLimit :: 'a
  DashPattern :: "'a list option"
  DashPhase :: 'a
  TextState :: "'a TextState"
  StrokeAlpha :: 'a
  FillAlpha :: 'a
  BlendMode :: string
  RenderingIntent :: string
  Flatness :: 'a
  Smoothness :: 'a

text \<open>Conversions of the Go runtime and of \<open>strconv\<close>/\<open>fmt\<close> that the interpreter calls, taken as
  parameters: \<open>float64(n)\<close>, \<open>int(x)\<close>, \<open>strconv.ParseFloat\<close> and \<open>strconv.Atoi\<close> (which yield 0
  on failure, the error being dropped by the callers), and \<open>fmt.Sprintf("%v", v)\<close>.\<close>

datatype 'a operand =
    OFloat 'a
  | OInt int
  | OInt64 int
  | OStr string
  | OBytes "byte list"
  | OArr "'a operand list"
  | OBool bool
  | ONil

record 'a prims =
  floatOfInt :: "int \<Rightarrow> 'a"
  intOfFloat :: "'a \<Rightarrow> int"
  parseFloat :: "string \<Rightarrow> 'a"
  atoi :: "string \<Rightarrow> int"
  sprint :: "'a operand \<Rightarrow> string"

definition NewState :: "'a::{zero,one,ord} prims \<Rightarrow> 'a State" where
  "NewState P =
     \<lparr>CTM = Identity,
      ClipPath = None,
      StrokeColor = Black,
      FillColor = Black,
      StrokeColorSpace = ''DeviceGray'',
      FillColorSpace = ''DeviceGray'',
      LineWidth = 1,
      LineCap = 0,
      LineJoin = 0,
      MiterLimit = floatOfInt P 10,
      DashPattern = None,
      DashPhase = 0,
      TextState =
        \<lparr>CharSpace = 0, WordSpace = 0, HScale = floatOfInt P 100, Leading = 0, FontName = [],
         FontSize = 0, RenderMode = 0, Rise = 0, TextMatrix = Identity, LineMatrix = Identity\<rparr>,
      StrokeAlpha = 1,
      FillAlpha = 1,
      BlendMode = ''Normal'',
      RenderingIntent = ''RelativeColorimetric'',
      Flatness = 1,
      Smoothness = 0\<rparr>"

text \<open>\<open>State.Clone\<close>: a copy of the struct whose dash pattern is copied into a new slice and
  whose clip path is cloned, when they are not nil.\<close>

definition Clone :: "'a State \<Rightarrow> 'a State" where
  "Clone s =
     s\<lparr>DashPattern := (case DashPattern s of None \<Rightarrow> None | Some d \<Rightarrow> Some (map (\<lambda>x. x) d)),
       ClipPath := (case ClipPath s of None \<Rightarrow> None | Some p \<Rightarrow> Some (Path_Clone p))\<rparr>"

text \<open>\<open>StateStack\<close>: the slice \<open>states\<close>, the topmost state last. \<open>Current\<close> appends a new state
  to an empty stack before it returns the last element, so it is split into the stack it leaves
  (\<open>Current_states\<close>) and the element it returns.\<close>

definition NewStateStack :: "'a::{zero,one,ord} prims \<Rightarrow> 'a State list" where
  "NewStateStack P = [NewState P]"

definition Current_states :: "'a::{zero,one,ord} prims \<Rightarrow> 'a State list \<Rightarrow> 'a State list" where
  "Current_states P states = (if length states = 0 then states @ [NewState P] else states)"

definition Current :: "'a::{zero,one,ord} prims \<Rightarrow> 'a State list \<Rightarrow> 'a State" where
  "Current P states = last (Current_states P states)"

definition Push :: "'a::{zero,one,ord} prims \<Rightarrow> 'a State list \<Rightarrow> 'a State list" where
  "Push P states = Current_states P states @ [Clone (Current P states)]"

definition Pop :: "'a State list \<Rightarrow> 'a State list" where
  "Pop states = (if length states > 1 then take (length states - 1) states else states)"

definition Depth :: "'a State list \<Rightarrow> nat" where
  "Depth states = length states"

section \<open>Package graphics: the interpreter\<close>

record 'a Operator =
  Name :: string
  Operands :: "'a operand list"

text \<open>The callbacks \<open>OnFill\<close>, \<open>OnStroke\<close>, \<open>OnClip\<close>, \<open>OnText\<close> and \<open>OnImage\<close> are code of the
  embedder. The interpreter records whether each one is set (not nil), and every call is
  written to the log \<open>events\<close> with the arguments it is given.\<close>

datatype 'a event =
    EvFill "'a Path" "'a State" FillRule
  | EvStroke "'a Path" "'a State"
  | EvClip "'a Path" FillRule
  | EvText string "'a State"
  | EvImage string "'a State"

record 'a Interpreter =
  stack :: "'a State list"
  path :: "'a Path"
  OnFill :: bool
  OnStroke :: bool
  OnClip :: bool
  OnText :: bool
  OnImage :: bool
  events :: "'a event list"

definition NewInterpreter :: "'a::{zero,one,ord} prims \<Rightarrow> 'a Interpreter" where
  "NewInterpreter P =
     \<lparr>stack = NewStateStack P, path = NewPath,
      OnFill = False, OnStroke = False, OnClip = False, OnText = False, OnImage = False,
      events = []\<rparr>"

fun toFloat :: "'a::zero prims \<Rightarrow> 'a operand \<Rightarrow> 'a" where
  "toFloat P (OFloat x) = x"
| "toFloat P (OInt n) = floatOfInt P n"
| "toFloat P (OInt64 n) = floatOfInt P n"
| "toFloat P (OStr s) = parseFloat P s"
| "toFloat P _ = 0"

fun toInt :: "'a prims \<Rightarrow> 'a operand \<Rightarrow> int" where
  "toInt P (OInt n) = n"
| "toInt P (OInt64 n) = n"
| "toInt P (OFloat x) = intOfFloat P x"
| "toInt P (OStr s) = atoi P s"
| "toInt P _ = 0"

fun toString :: "'a prims \<Rightarrow> 'a operand \<Rightarrow> string" where
  "toString P (OStr s) = s"
| "toString P (OBytes bs) = map (\<lambda>b. char_of (unat b)) bs"
| "toString P v = sprint P v"

definition parseColor :: "'a::{zero,one,ord} prims \<Rightarrow> string \<Rightarrow> 'a operand list \<Rightarrow> 'a Color" where
  "parseColor P space operands =
     (if space = ''DeviceGray'' \<and> length operands \<ge> 1 then NewGray (toFloat P (operands ! 0))
      else if space = ''DeviceRGB'' \<and> length operands \<ge> 3 then
        NewRGB (toFloat P (operands ! 0)) (toFloat P (operands ! 1)) (toFloat P (operands ! 2))
      else if space = ''DeviceCMYK'' \<and> length operands \<ge> 4 then
        NewCMYK (toFloat P (operands ! 0)) (toFloat P (operands ! 1)) (toFloat P (operands ! 2))
          (toFloat P (operands ! 3))
      else Black)"

text \<open>The text of the strings of a \<open>TJ\<close> array, concatenated.\<close>

fun TJ_text :: "'a operand list \<Rightarrow> string" where
  "TJ_text [] = []"
| "TJ_text (OStr s # items) = s @ TJ_text items"
| "TJ_text (_ # items) = TJ_text items"

text \<open>The cases of \<open>executeOp\<close> other than \<open>q\<close> and \<open>Q\<close>. They work on the state \<open>state\<close> that
  \<open>i.stack.Current()\<close> points to and on the current path \<open>i.path\<close>; the result is the updated
  state, the updated path and the callback calls made, in order. The cases follow the
  \<open>switch\<close>; a name that matches no case falls through the \<open>switch\<close>.\<close>

definition stateOp ::
  "'a::{zero,one,plus,times,uminus,ord} prims \<Rightarrow> 'a Interpreter \<Rightarrow> string \<Rightarrow> 'a operand list \<Rightarrow>
   'a State \<Rightarrow> 'a Path \<Rightarrow> 'a State \<times> 'a Path \<times> 'a event list" where
  "stateOp P i name ops state pth =
    (if name = ''cm'' then
       (if length ops \<ge> 6 then
          (state\<lparr>CTM := Multiply (CTM state)
              (Matrix (toFloat P (ops ! 0)) (toFloat P (ops ! 1)) (toFloat P (ops ! 2))
                      (toFloat P (ops ! 3)) (toFloat P (ops ! 4)) (toFloat P (ops ! 5)))\<rparr>, pth, [])
        else (state, pth, []))
     else if name = ''w'' then
       (if length ops \<ge> 1 then (state\<lparr>LineWidth := toFloat P (ops ! 0)\<rparr>, pth, []) else (state, pth, []))
     else if name = ''J'' then
       (if length ops \<ge> 1 then (state\<lparr>LineCap := toInt P (ops ! 0)\<rparr>, pth, []) else (state, pth, []))
     else if name = ''j'' then
       (if length ops \<ge> 1 then (state\<lparr>LineJoin := toInt P (ops ! 0)\<rparr>, pth, []) else (state, pth, []))
     else if name = ''M'' then
       (if length ops \<ge> 1 then (state\<lparr>MiterLimit := toFloat P (ops ! 0)\<rparr>, pth, []) else (state, pth, []))
     else if name = ''d'' then
       (if length ops \<ge> 2 then
          ((case ops ! 0 of
              OArr arr \<Rightarrow> state\<lparr>DashPattern := Some (map (toFloat P) arr)\<rparr>
            | _ \<Rightarrow> state)\<lparr>DashPhase := toFloat P (ops ! 1)\<rparr>, pth, [])
        else (state, pth, []))
     else if name = ''ri'' then
       (if length ops \<ge> 1 then (state\<lparr>RenderingIntent := toString P (ops ! 0)\<rparr>, pth, [])
        else (state, pth, []))
     else if name = ''i'' then
       (if length ops \<ge> 1 then (state\<lparr>Flatness := toFloat P (ops ! 0)\<rparr>, pth, []) else (state, pth, []))
     else if name = ''gs'' then (state, pth, [])
     else if name = ''m'' then
       (if length ops \<ge> 2 then (state, MoveTo (toFloat P (ops ! 0)) (toFloat P (ops ! 1)) pth, [])
        else (state, pth, []))
     else if name = ''l'' then
       (if length ops \<ge> 2 then (state, LineTo (toFloat P (ops ! 0)) (toFloat P (ops ! 1)) pth, [])
        else (state, pth, []))
     else if name = ''c'' then
       (if length ops \<ge> 6 then
          (state, CurveTo (toFloat P (ops ! 0)) (toFloat P (ops ! 1)) (toFloat P (ops ! 2))
                    (toFloat P (ops ! 3)) (toFloat P (ops ! 4)) (toFloat P (ops ! 5)) pth, [])
        else (state, pth, []))
     else if name = ''v'' then
       (if length ops \<ge> 4 then
          (state, CurveToV (toFloat P (ops ! 0)) (toFloat P (ops ! 1)) (toFloat P (ops ! 2))
                    (toFloat P (ops ! 3)) pth, [])
        else (state, pth, []))
     else if name = ''y'' then
       (if length ops \<ge> 4 then
          (state, CurveToY (toFloat P (ops ! 0)) (toFloat P (ops ! 1)) (toFloat P (ops ! 2))
                    (toFloat P (ops ! 3)) pth, [])
        else (state, pth, []))
     else if name = ''h'' then (state, Close pth, [])
     else if name = ''re'' then
       (if length ops \<ge> 4 then
          (state, Rect (toFloat P (ops ! 0)) (toFloat P (ops ! 1)) (toFloat P (ops ! 2))
                    (toFloat P (ops ! 3)) pth, [])
        else (state, pth, []))
     else if name = ''S'' then
       (state, Clear pth,
        (if OnStroke i then [EvStroke (Path_Transform pth (CTM state)) state] else []))
     else if name = ''s'' then
       (state, Clear (Close pth),
        (if OnStroke i then [EvStroke (Path_Transform (Close pth) (CTM state)) state] else []))
     else if name = ''f'' \<or> name = ''F'' then
       (state, Clear pth,
        (if OnFill i then [EvFill (Path_Transform pth (CTM state)) state FillRuleNonZero] else []))
     else if name = ''f*'' then
       (state, Clear pth,
        (if OnFill i then [EvFill (Path_Transform pth (CTM state)) state FillRuleEvenOdd] else []))
     else if name = ''B'' then
       (state, Clear pth,
        (if OnFill i then [EvFill (Path_Transform pth (CTM state)) state FillRuleNonZero] else []) @
        (if OnStroke i then [EvStroke (Path_Transform pth (CTM state)) state] else []))
     else if name = ''B*'' then
       (state, Clear pth,
        (if OnFill i then [EvFill (Path_Transform pth (CTM state)) state FillRuleEvenOdd] else []) @
        (if OnStroke i then [EvStroke (Path_Transform pth (CTM state)) state] else []))
     else if name = ''b'' then
       (state, Clear (Close pth),
        (if OnFill i then [EvFill (Path_Transform (Close pth) (CTM state)) state FillRuleNonZero] else []) @
        (if OnStroke i then [EvStroke (Path_Transform (Close pth) (CTM state)) state] else []))
     else if name = ''b*'' then
       (state, Clear (Close pth),
        (if OnFill i then [EvFill (Path_Transform (Close pth) (CTM state)) state FillRuleEvenOdd] else []) @
        (if OnStroke i then [EvStroke (Path_Transform (Close pth) (CTM state)) state] else []))
     else if name = ''n'' then (state, Clear pth, [])
     else if name = ''W'' then
       (state\<lparr>ClipPath := Some (Path_Clone pth)\<rparr>, pth,
        (if OnClip i then [EvClip pth FillRuleNonZero] else []))
     else if name = ''W*'' then
       (state\<lparr>ClipPath := Some (Path_Clone pth)\<rparr>, pth,
        (if OnClip i then [EvClip pth FillRuleEvenOdd] else []))
     else if name = ''CS'' then
       (if length ops \<ge> 1 then (state\<lparr>StrokeColorSpace := toString P (ops ! 0)\<rparr>, pth, [])
        else (state, pth, []))
     else if name = ''cs'' then
       (if length ops \<ge> 1 then (state\<lparr>FillColorSpace := toString P (ops ! 0)\<rparr>, pth, [])
        else (state, pth, []))
     else if name = ''SC'' \<or> name = ''SCN'' then
       (state\<lparr>StrokeColor := parseColor P (StrokeColorSpace state) ops\<rparr>, pth, [])
     else if name = ''sc'' \<or> name = ''scn'' then
       (state\<lparr>FillColor := parseColor P (FillColorSpace state) ops\<rparr>, pth, [])
     else if name = ''G'' then
       (if length ops \<ge> 1 then
          (state\<lparr>StrokeColorSpace := ''DeviceGray'', StrokeColor := NewGray (toFloat P (ops ! 0))\<rparr>, pth, [])
        else (state, pth, []))
     else if name = ''g'' then
       (if length ops \<ge> 1 then
          (state\<lparr>FillColorSpace := ''DeviceGray'', FillColor := NewGray (toFloat P (ops ! 0))\<rparr>, pth, [])
        else (state, pth, []))
     else if name = ''RG'' then
       (if length ops \<ge> 3 then
          (state\<lparr>StrokeColorSpace := ''DeviceRGB'',
                 StrokeColor := NewRGB (toFloat P (ops ! 0)) (toFloat P (ops ! 1)) (toFloat P (ops ! 2))\<rparr>,
           pth, [])
        else (state, pth, []))
     else if name = ''rg'' then
       (if length ops \<ge> 3 then
          (state\<lparr>FillColorSpace := ''DeviceRGB'',
                 FillColor := NewRGB (toFloat P (ops ! 0)) (toFloat P (ops ! 1)) (toFloat P (ops ! 2))\<rparr>,
           pth, [])
        else (state, pth, []))
     else if name = ''K'' then
       (if length ops \<ge> 4 then
          (state\<lparr>StrokeColorSpace := ''DeviceCMYK'',
                 StrokeColor := NewCMYK (toFloat P (ops ! 0)) (toFloat P (ops ! 1)) (toFloat P (ops ! 2))
                                  (toFloat P (ops ! 3))\<rparr>,
           pth, [])
        else (state, pth, []))
     else if name = ''k'' then
       (if length ops \<ge> 4 then
          (state\<lparr>FillColorSpace := ''DeviceCMYK'',
                 FillColor := NewCMYK (toFloat P (ops ! 0)) (toFloat P (ops ! 1)) (toFloat P (ops ! 2))
                                (toFloat P (ops ! 3))\<rparr>,
           pth, [])
        else (state, pth, []))
     else if name = ''BT'' then
       (state\<lparr>TextState := (TextState state)\<lparr>TextMatrix := Identity, LineMatrix := Identity\<rparr>\<rparr>, pth, [])
     else if name = ''ET'' then (state, pth, [])
     else if name = ''Tc'' then
       (if length ops \<ge> 1 then
          (state\<lparr>TextState := (TextState state)\<lparr>CharSpace := toFloat P (ops ! 0)\<rparr>\<rparr>, pth, [])
        else (state, pth, []))
     else if name = ''Tw'' then
       (if length ops \<ge> 1 then
          (state\<lparr>TextState := (TextState state)\<lparr>WordSpace := toFloat P (ops ! 0)\<rparr>\<rparr>, pth, [])
        else (state, pth, []))
     else if name = ''Tz'' then
       (if length ops \<ge> 1 then
          (state\<lparr>TextState := (TextState state)\<lparr>HScale := toFloat P (ops ! 0)\<rparr>\<rparr>, pth, [])
        else (state, pth, []))
     else if name = ''TL'' then
       (if length ops \<ge> 1 then
          (state\<lparr>TextState := (TextState state)\<lparr>Leading := toFloat P (ops ! 0)\<rparr>\<rparr>, pth, [])
        else (state, pth, []))
     else if name = ''Tf'' then
       (if length ops \<ge> 2 then
          (state\<lparr>TextState := (TextState state)
             \<lparr>FontName := toString P (ops ! 0), FontSize := toFloat P (ops ! 1)\<rparr>\<rparr>, pth, [])
        else (state, pth, []))
     else if name = ''Tr'' then
       (if length ops \<ge> 1 then
          (state\<lparr>TextState := (TextState state)\<lparr>RenderMode := toInt P (ops ! 0)\<rparr>\<rparr>, pth, [])
        else (state, pth, []))
     else if name = ''Ts'' then
       (if length ops \<ge> 1 then
          (state\<lparr>TextState := (TextState state)\<lparr>Rise := toFloat P (ops ! 0)\<rparr>\<rparr>, pth, [])
        else (state, pth, []))
     else if name = ''Td'' then
       (if length ops \<ge> 2 then
          (let tx = toFloat P (ops ! 0); ty = toFloat P (ops ! 1);
               s1 = state\<lparr>TextState := (TextState state)
                      \<lparr>LineMatrix := Multiply (Translate tx ty) (LineMatrix (TextState state))\<rparr>\<rparr>;
               s2 = s1\<lparr>TextState := (TextState s1)\<lparr>TextMatrix := LineMatrix (TextState s1)\<rparr>\<rparr>
           in (s2, pth, []))
        else (state, pth, []))
     else if name = ''TD'' then
       (if length ops \<ge> 2 then
          (let tx = toFloat P (ops ! 0); ty = toFloat P (ops ! 1);
               s0 = state\<lparr>TextState := (TextState state)\<lparr>Leading := - ty\<rparr>\<rparr>;
               s1 = s0\<lparr>TextState := (TextState s0)
                      \<lparr>LineMatrix := Multiply (Translate tx ty) (LineMatrix (TextState s0))\<rparr>\<rparr>;
               s2 = s1\<lparr>TextState := (TextState s1)\<lparr>TextMatrix := LineMatrix (TextState s1)\<rparr>\<rparr>
           in (s2, pth, []))
        else (state, pth, []))
     else if name = ''Tm'' then
       (if length ops \<ge> 6 then
          (let s1 = state\<lparr>TextState := (TextState state)
                      \<lparr>TextMatrix :=
                         Matrix (toFloat P (ops ! 0)) (toFloat P (ops ! 1)) (toFloat P (ops ! 2))
                                (toFloat P (ops ! 3)) (toFloat P (ops ! 4)) (toFloat P (ops ! 5))\<rparr>\<rparr>;
               s2 = s1\<lparr>TextState := (TextState s1)\<lparr>LineMatrix := TextMatrix (TextState s1)\<rparr>\<rparr>
           in (s2, pth, []))
        else (state, pth, []))
     else if name = ''T*'' then
       (let s1 = state\<lparr>TextState := (TextState state)
                   \<lparr>LineMatrix := Multiply (Translate 0 (- Leading (TextState state)))
                                    (LineMatrix (TextState state))\<rparr>\<rparr>;
            s2 = s1\<lparr>TextState := (TextState s1)\<lparr>TextMatrix := LineMatrix (TextState s1)\<rparr>\<rparr>
        in (s2, pth, []))
     else if name = ''Tj'' then
       (if length ops \<ge> 1 then
          (state, pth, (if OnText i then [EvText (toString P (ops ! 0)) state] else []))
        else (state, pth, []))
     else if name = ''TJ'' then
       (if length ops \<ge> 1 then
          (case ops ! 0 of
             OArr arr \<Rightarrow>
               (state, pth, (if OnText i \<and> TJ_text arr \<noteq> [] then [EvText (TJ_text arr) state] else []))
           | _ \<Rightarrow> (state, pth, []))
        else (state, pth, []))
     else if name = [CHR 0x27] then
       (let s1 = state\<lparr>TextState := (TextState state)
                   \<lparr>LineMatrix := Multiply (Translate 0 (- Leading (TextState state)))
                                    (LineMatrix (TextState state))\<rparr>\<rparr>;
            s2 = s1\<lparr>TextState := (TextState s1)\<lparr>TextMatrix := LineMatrix (TextState s1)\<rparr>\<rparr>
        in (s2, pth, (if length ops \<ge> 1 \<and> OnText i then [EvText (toString P (ops ! 0)) s2] else [])))
     else if name = [CHR 0x22] then
       (if length ops \<ge> 3 then
          (let s0 = state\<lparr>TextState := (TextState state)\<lparr>WordSpace := toFloat P (ops ! 0)\<rparr>\<rparr>;
               s0' = s0\<lparr>TextState := (TextState s0)\<lparr>CharSpace := toFloat P (ops ! 1)\<rparr>\<rparr>;
               s1 = s0'\<lparr>TextState := (TextState s0')
                      \<lparr>LineMatrix := Multiply (Translate 0 (- Leading (TextState s0')))
                                       (LineMatrix (TextState s0'))\<rparr>\<rparr>;
               s2 = s1\<lparr>TextState := (TextState s1)\<lparr>TextMatrix := LineMatrix (TextState s1)\<rparr>\<rparr>
           in (s2, pth, (if OnText i then [EvText (toString P (ops ! 2)) s2] else [])))
        else (state, pth, []))
     else if name = ''Do'' then
       (if length ops \<ge> 1 then
          (state, pth, (if OnImage i then [EvImage (toString P (ops ! 0)) state] else []))
        else (state, pth, []))
     else (state, pth, []))"

text \<open>\<open>executeOp\<close>. The pointer \<open>state\<close> is taken from \<open>i.stack.Current()\<close> before the \<open>switch\<close>,
  which leaves at least one state on the stack; every case other than \<open>q\<close> and \<open>Q\<close> writes
  through that pointer, that is, to the topmost state. The function always returns nil.\<close>

definition executeOp ::
  "'a::{zero,one,plus,times,uminus,ord} prims \<Rightarrow> 'a Interpreter \<Rightarrow> 'a Operator \<Rightarrow>
   error option \<times> 'a Interpreter" where
  "executeOp P i op =
     (let states = Current_states P (stack i)
      in if Name op = ''q'' then (None, i\<lparr>stack := Push P states\<rparr>)
         else if Name op = ''Q'' then (None, i\<lparr>stack := Pop states\<rparr>)
         else (case stateOp P i (Name op) (Operands op) (last states) (path i) of
                 (state', path', evs) \<Rightarrow>
                   (None, i\<lparr>stack := butlast states @ [state'], path := path',
                             events := events i @ evs\<rparr>)))"

text \<open>\<open>Execute\<close> runs the operators in order; an error of \<open>executeOp\<close> is printed as a warning
  and execution continues; the result is always nil.\<close>

definition Execute ::
  "'a::{zero,one,plus,times,uminus,ord} prims \<Rightarrow> 'a Interpreter \<Rightarrow> 'a Operator list \<Rightarrow>
   error option \<times> 'a Interpreter" where
  "Execute P i ops = (None, foldl (\<lambda>j op. snd (executeOp P j op)) i ops)"

text \<open>The operator names that have a case in the \<open>switch\<close> of \<open>executeOp\<close>, in its order.\<close>

definition knownOperators :: "string list" where
  "knownOperators =
     [''q'', ''Q'', ''cm'', ''w'', ''J'', ''j'', ''M'', ''d'', ''ri'', ''i'', ''gs'',
      ''m'', ''l'', ''c'', ''v'', ''y'', ''h'', ''re'',
      ''S'', ''s'', ''f'', ''F'', ''f*'', ''B'', ''B*'', ''b'', ''b*'', ''n'',
      ''W'', ''W*'',
      ''CS'', ''cs'', ''SC'', ''SCN'', ''sc'', ''scn'', ''G'', ''g'', ''RG'', ''rg'', ''K'', ''k'',
      ''BT'', ''ET'', ''Tc'', ''Tw'', ''Tz'', ''TL'', ''Tf'', ''Tr'', ''Ts'',
      ''Td'', ''TD'', ''Tm'', ''T*'', ''Tj'', ''TJ'', [CHR 0x27], [CHR 0x22], ''Do'']"

text \<open>\<open>isOperator\<close> (of the content-stream parser).\<close>

definition isOperator :: "string \<Rightarrow> bool" where
  "isOperator tok =
     (if length tok = 0 then False
      else if hd tok = CHR ''/'' \<or> hd tok = CHR ''('' \<or> hd tok = CHR ''<'' \<or> hd tok = CHR ''[''
              \<or> hd tok = CHR '']'' then False
      else if (of_char (hd tok) \<ge> (of_char (CHR ''0'') :: nat) \<and>
               of_char (hd tok) \<le> (of_char (CHR ''9'') :: nat))
              \<or> hd tok = CHR ''-'' \<or> hd tok = CHR ''+'' \<or> hd tok = CHR ''.'' then False
      else if tok = ''true'' \<or> tok = ''false'' \<or> tok = ''null'' then False
      else True)"

text \<open>The loop of \<open>ParseContentStream\<close> over the tokens that \<open>tokenize\<close> returns, with the
  slices \<open>ops\<close> and \<open>operands\<close> as loop state. The conversion \<open>parseOperand\<close> of one operand token
  is a parameter: what follows holds for whatever value it returns.\<close>

fun ParseContentStream_loop ::
  "(string \<Rightarrow> 'a operand) \<Rightarrow> string list \<Rightarrow> 'a Operator list \<Rightarrow> 'a operand list \<Rightarrow> 'a Operator list" where
  "ParseContentStream_loop parseOperand [] ops operands = ops"
| "ParseContentStream_loop parseOperand (tok # tokens) ops operands =
     (if isOperator tok
      then ParseContentStream_loop parseOperand tokens (ops @ [\<lparr>Name = tok, Operands = operands\<rparr>]) []
      else ParseContentStream_loop parseOperand tokens ops (operands @ [parseOperand tok]))"

definition ParseContentStream ::
  "(string \<Rightarrow> string list) \<Rightarrow> (string \<Rightarrow> 'a operand) \<Rightarrow> string \<Rightarrow> error + 'a Operator list" where
  "ParseContentStream tokenize parseOperand data =
     Inr (ParseContentStream_loop parseOperand (tokenize data) [] [])"

text \<open>How a list of operators nests its \<open>q\<close> and \<open>Q\<close>: the save depth after the list, starting
  at depth \<open>d\<close>. \<open>nesting\<close> is defined (not \<open>None\<close>) when every \<open>Q\<close> closes an earlier \<open>q\<close> and every
  other operator stands inside a \<open>q\<close>\<dots>\<open>Q\<close> pair; \<open>clampedNesting\<close> also admits a \<open>Q\<close> at depth 0,
  that is, more \<open>Q\<close> than \<open>q\<close>.\<close>

fun nesting :: "nat \<Rightarrow> 'a Operator list \<Rightarrow> nat option" where
  "nesting d [] = Some d"
| "nesting d (op # ops) =
     (if Name op = ''q'' then nesting (d + 1) ops
      else if d = 0 then None
      else if Name op = ''Q'' then nesting (d - 1) ops
      else nesting d ops)"

fun clampedNesting :: "nat \<Rightarrow> 'a Operator list \<Rightarrow> nat option" where
  "clampedNesting d [] = Some d"
| "clampedNesting d (op # ops) =
     (if Name op = ''q'' then clampedNesting (d + 1) ops
      else if Name op = ''Q'' then clampedNesting (d - 1) ops
      else if d = 0 then None
      else clampedNesting d ops)"

text \<open>Conversions at the type \<open>int\<close>, used to run the interpreter on concrete operator lists whose
  operands are whole numbers.\<close>

definition intPrims :: "int prims" where
  "intPrims = \<lparr>floatOfInt = (\<lambda>n. n), intOfFloat = (\<lambda>x. x), parseFloat = (\<lambda>s. 0), atoi = (\<lambda>s. 0),
               sprint = (\<lambda>v. [])\<rparr>"

section \<open>Package stream: PNG predictors\<close>



datatype 'a result = Ok 'a | Err error | RuntimePanic

record DecodeParams =
  Predictor :: int
  Colors :: int
  BitsPerComponent :: int
  Columns :: int
  EarlyChange :: int

definition DefaultDecodeParams :: DecodeParams where
  "DefaultDecodeParams =
     \<lparr>Predictor = 1, Colors = 1, BitsPerComponent = 8, Columns = 1, EarlyChange = 1\<rparr>"























section \<open>Package ttf: cmap format 4\<close>

text \<open>\<open>CmapFormat4\<close>. \<open>IDDelta\<close> is a slice of \<open>int16\<close>: its elements are read as signed
  (\<open>sint\<close>), all others as unsigned.\<close>

record CmapFormat4 =
  SegCount :: "16 word"
  EndCode :: "16 word list"
  StartCode :: "16 word list"
  IDDelta :: "16 word list"
  IDRangeOffset :: "16 word list"
  GlyphIDArray :: "16 word list"

text \<open>The binary search of \<open>GetGlyphID\<close>, with \<open>lo\<close> and \<open>hi\<close> as loop state (neither is negative
  when \<open>lo \<le> hi\<close>, so Go's \<open>/\<close> is \<open>div\<close>). An index beyond the end of a slice is a panic.\<close>

function GetGlyphID_loop :: "CmapFormat4 \<Rightarrow> 16 word \<Rightarrow> int \<Rightarrow> int \<Rightarrow> 16 word result" where
  "GetGlyphID_loop c code lo hi =
     (if lo \<le> hi then
        (let mid = (lo + hi) div 2 in
         if mid < 0 \<or> mid \<ge> int (length (EndCode c)) then RuntimePanic
         else if code > EndCode c ! nat mid then GetGlyphID_loop c code (mid + 1) hi
         else if mid \<ge> int (length (StartCode c)) then RuntimePanic
         else if code < StartCode c ! nat mid then GetGlyphID_loop c code lo (mid - 1)
         else if mid \<ge> int (length (IDRangeOffset c)) then RuntimePanic
         else if IDRangeOffset c ! nat mid = 0 then
           (if mid \<ge> int (length (IDDelta c)) then RuntimePanic
            else Ok (word_of_int (uint code + sint (IDDelta c ! nat mid))))
         else
           (let idx = uint (IDRangeOffset c ! nat mid) div 2 + uint (code - StartCode c ! nat mid)
                        - (uint (SegCount c) - mid)
            in if idx \<ge> 0 \<and> idx < int (length (GlyphIDArray c)) then
                 (if GlyphIDArray c ! nat idx \<noteq> 0 then
                    (if mid \<ge> int (length (IDDelta c)) then RuntimePanic
                     else Ok (word_of_int (uint (GlyphIDArray c ! nat idx) + sint (IDDelta c ! nat mid))))
                  else Ok 0)
               else Ok 0))
      else Ok 0)"
  by pat_completeness auto
termination
  by (relation "measure (\<lambda>(c, code, lo, hi). nat (hi - lo + 1))") auto

declare GetGlyphID_loop.simps [simp del]

text \<open>\<open>CmapFormat4.GetGlyphID\<close>; the rune \<open>r\<close> is an \<open>int32\<close>, and \<open>uint16(r)\<close> keeps its low 16 bits.\<close>

definition GetGlyphID :: "CmapFormat4 \<Rightarrow> int \<Rightarrow> 16 word result" where
  "GetGlyphID c r =
     (if r > 0xFFFF then Ok 0
      else GetGlyphID_loop c (word_of_int r) 0 (uint (SegCount c) - 1))"

text \<open>A subtable as \<open>parseCmapFormat4\<close> builds it from a font whose segments are in order: the four
  segment arrays have \<open>SegCount\<close> elements, every segment runs from its start code up to its
  end code, and each segment ends before the next one starts.\<close>

definition segmentsInOrder :: "CmapFormat4 \<Rightarrow> bool" where
  "segmentsInOrder c \<longleftrightarrow>
     length (EndCode c) = unat (SegCount c) \<and>
     length (StartCode c) = unat (SegCount c) \<and>
     length (IDDelta c) = unat (SegCount c) \<and>
     length (IDRangeOffset c) = unat (SegCount c) \<and>
     (\<forall>i < unat (SegCount c). StartCode c ! i \<le> EndCode c ! i) \<and>
     (\<forall>j < unat (SegCount c). \<forall>i < j. EndCode c ! i < StartCode c ! j)"

definition inSegment :: "CmapFormat4 \<Rightarrow> 16 word \<Rightarrow> nat \<Rightarrow> bool" where
  "inSegment c code i \<longleftrightarrow>
     i < unat (SegCount c) \<and> StartCode c ! i \<le> code \<and> code \<le> EndCode c ! i"

text \<open>The glyph of a code in segment \<open>i\<close> as the specification words it: the index into
  \<open>glyphIdArray\<close>, and the glyph with \<open>idDelta\<close> added modulo 65536 in both cases.\<close>

definition glyphIndex_spec :: "CmapFormat4 \<Rightarrow> 16 word \<Rightarrow> nat \<Rightarrow> int" where
  "glyphIndex_spec c code i =
     uint (IDRangeOffset c ! i) div 2 + (uint code - uint (StartCode c ! i)) - (uint (SegCount c) - int i)"

definition format4_spec :: "CmapFormat4 \<Rightarrow> 16 word \<Rightarrow> nat \<Rightarrow> int" where
  "format4_spec c code i =
     (if IDRangeOffset c ! i = 0 then (uint code + sint (IDDelta c ! i)) mod 65536
      else (uint (GlyphIDArray c ! nat (glyphIndex_spec c code i)) + sint (IDDelta c ! i)) mod 65536)"

text \<open>The same with the two guards of the code: an index outside \<open>glyphIdArray\<close> and an entry 0
  (the missing glyph) give glyph 0, with no \<open>idDelta\<close> added.\<close>

definition format4_guarded :: "CmapFormat4 \<Rightarrow> 16 word \<Rightarrow> nat \<Rightarrow> int" where
  "format4_guarded c code i =
     (if IDRangeOffset c ! i = 0 then (uint code + sint (IDDelta c ! i)) mod 65536
      else if 0 \<le> glyphIndex_spec c code i \<and> glyphIndex_spec c code i < int (length (GlyphIDArray c))
              \<and> GlyphIDArray c ! nat (glyphIndex_spec c code i) \<noteq> 0
      then (uint (GlyphIDArray c ! nat (glyphIndex_spec c code i)) + sint (IDDelta c ! i)) mod 65536
      else 0)"

section \<open>Package stream: LZWDecode\<close>

text \<open>\<open>lzwDecoder\<close>: the read position (\<open>pos\<close>, \<open>bitPos\<close>) in the input and the code table. The
  table is a slice of 4096 slices, nil (here empty) where no code is assigned; the input
  \<open>data\<close> and the flag \<open>earlyChange\<close> never change and are passed beside the record.\<close>

record lzwDecoder =
  pos :: nat
  bitPos :: nat
  table :: "nat \<Rightarrow> byte list"
  codeSize :: nat
  nextCode :: nat

definition reset :: "lzwDecoder \<Rightarrow> lzwDecoder" where
  "reset d =
     d\<lparr>table := (\<lambda>i. if i < 256 then [word_of_nat i] else []), codeSize := 9, nextCode := 258\<rparr>"

definition newLZWDecoder :: lzwDecoder where
  "newLZWDecoder = reset \<lparr>pos = 0, bitPos = 0, table = (\<lambda>i. []), codeSize = 0, nextCode = 0\<rparr>"

text \<open>The loop \<open>for bitsNeeded > 0\<close> of \<open>readCode\<close>: it takes the bits left in the current byte, most
  significant first. \<open>bitPos\<close> is below 8 whenever the loop is entered, since it is set back to 0
  as soon as it reaches 8.\<close>

function readCode_loop ::
  "byte list \<Rightarrow> nat \<Rightarrow> nat \<Rightarrow> nat \<Rightarrow> nat \<Rightarrow> (nat \<times> nat \<times> nat) option" where
  "readCode_loop data p bp bitsNeeded code =
     (if bitsNeeded > 0 then
        (if p \<ge> length data then None
         else
           (let bitsAvail = 8 - bp;
                bitsToRead = (if bitsNeeded > bitsAvail then bitsAvail else bitsNeeded);
                msk = 2 ^ bitsToRead - 1;
                shift = bitsAvail - bitsToRead;
                bits = (drop_bit shift (unat (data ! p))) AND msk;
                code' = (push_bit bitsToRead code) OR bits
            in if bp + bitsToRead \<ge> 8
               then readCode_loop data (p + 1) 0 (bitsNeeded - bitsToRead) code'
               else readCode_loop data p (bp + bitsToRead) (bitsNeeded - bitsToRead) code'))
      else Some (code, p, bp))"
  by pat_completeness auto
termination
  apply (relation "measures [\<lambda>(data, p, bp, bitsNeeded, code). bitsNeeded,
                             \<lambda>(data, p, bp, bitsNeeded, code). length data - p]")
    apply (auto split: if_splits)
  done

declare readCode_loop.simps [simp del]

text \<open>\<open>readCode\<close>: \<open>None\<close> is the result \<open>(0, false)\<close>, given when the input has ended.\<close>

definition readCode :: "byte list \<Rightarrow> lzwDecoder \<Rightarrow> (nat \<times> lzwDecoder) option" where
  "readCode data d =
     (if pos d \<ge> length data then None
      else (case readCode_loop data (pos d) (bitPos d) (codeSize d) 0 of
              None \<Rightarrow> None
            | Some (code, p, bp) \<Rightarrow> Some (code, d\<lparr>pos := p, bitPos := bp\<rparr>)))"

text \<open>The table update after a code: the new entry \<open>prevSeq + seq[0]\<close> and the growth of the code
  size at \<open>(1 << codeSize)\<close>, one less with \<open>earlyChange\<close>.\<close>

definition addEntry :: "bool \<Rightarrow> lzwDecoder \<Rightarrow> byte list \<Rightarrow> byte \<Rightarrow> lzwDecoder" where
  "addEntry earlyChange d prevSeq b =
     (let d1 = d\<lparr>table := (table d)(nextCode d := prevSeq @ [b]), nextCode := nextCode d + 1\<rparr>;
          threshold = (if earlyChange then 2 ^ codeSize d1 - 1 else 2 ^ codeSize d1)
      in if nextCode d1 \<ge> threshold \<and> codeSize d1 < 12 then d1\<lparr>codeSize := codeSize d1 + 1\<rparr> else d1)"

text \<open>The loop of \<open>decode\<close>, with the decoder, \<open>result\<close> and \<open>prevSeq\<close> (nil is \<open>None\<close>) as state. Not
  returning is the value \<open>None\<close>.\<close>

partial_function (option) decode_loop ::
  "byte list \<Rightarrow> bool \<Rightarrow> lzwDecoder \<Rightarrow> byte list \<Rightarrow> byte list option \<Rightarrow> byte list result option" where
  "decode_loop data earlyChange d result prevSeq =
     (case readCode data d of
        None \<Rightarrow> Some (Ok result)
      | Some (code, d1) \<Rightarrow>
          if code = 257 then Some (Ok result)
          else if code = 256 then decode_loop data earlyChange (reset d1) result None
          else if code < nextCode d1 then
            (case prevSeq of
               None \<Rightarrow> decode_loop data earlyChange d1 (result @ table d1 code) (Some (table d1 code))
             | Some p \<Rightarrow>
                 if nextCode d1 < 4096 then
                   (case table d1 code of
                      [] \<Rightarrow> Some RuntimePanic
                    | b # bs \<Rightarrow>
                        decode_loop data earlyChange (addEntry earlyChange d1 p b)
                          (result @ table d1 code) (Some (table d1 code)))
                 else decode_loop data earlyChange d1 (result @ table d1 code) (Some (table d1 code)))
          else if code = nextCode d1 then
            (case prevSeq of
               None \<Rightarrow> Some (Err (InvalidLZWCode code))
             | Some [] \<Rightarrow> Some RuntimePanic
             | Some (b # bs) \<Rightarrow>
                 if nextCode d1 < 4096 then
                   decode_loop data earlyChange (addEntry earlyChange d1 (b # bs) b)
                     (result @ (b # bs) @ [b]) (Some ((b # bs) @ [b]))
                 else decode_loop data earlyChange d1 (result @ (b # bs) @ [b]) (Some ((b # bs) @ [b])))
          else Some (Err (InvalidLZWCode code)))"

declare decode_loop.simps [code]

definition DecodeLZW :: "byte list \<Rightarrow> int \<Rightarrow> byte list result option" where
  "DecodeLZW data earlyChange =
     (if length data = 0 then Some (Ok [])
      else decode_loop data (earlyChange = 1) newLZWDecoder [] None)"

section \<open>Package cos: objects, cross-reference table, reader\<close>

typedecl float64

text \<open>\<open>Object\<close>: the types that implement the interface. A \<open>Dict\<close> is a Go map from names to
  objects, kept here as an association list that is looked up with \<open>map_of\<close>.\<close>

datatype Object =
    NullObj
  | BooleanObj bool
  | IntegerObj int
  | RealObj float64
  | StringObj string
  | NameObj string
  | ArrayObj "Object list"
  | DictObj "(string \<times> Object) list"
  | ReferenceObj int int
  | StreamObj "(string \<times> Object) list" "byte list"

type_synonym Dict = "(string \<times> Object) list"

text \<open>\<open>Dict.Get\<close> returns nil (\<open>None\<close>) for a missing key; \<open>GetName\<close> and \<open>GetInt\<close> return their
  second result false (\<open>None\<close>) for a missing key and for a value of another type.\<close>

definition Get :: "Dict \<Rightarrow> string \<Rightarrow> Object option" where
  "Get d key = map_of d key"

definition GetName :: "Dict \<Rightarrow> string \<Rightarrow> string option" where
  "GetName d key = (case map_of d key of Some (NameObj n) \<Rightarrow> Some n | _ \<Rightarrow> None)"

definition GetInt :: "Dict \<Rightarrow> string \<Rightarrow> int option" where
  "GetInt d key = (case map_of d key of Some (IntegerObj n) \<Rightarrow> Some n | _ \<Rightarrow> None)"

text \<open>The assignment \<open>d[key] = value\<close>.\<close>

definition dict_set :: "Dict \<Rightarrow> string \<Rightarrow> Object \<Rightarrow> Dict" where
  "dict_set d key v = (key, v) # filter (\<lambda>kv. fst kv \<noteq> key) d"

record XrefEntry =
  Offset :: int
  Generation :: int
  InUse :: bool
  ObjectStreamNum :: int
  IndexInStream :: int

record XrefTable =
  Entries :: "int \<rightharpoonup> XrefEntry"
  Trailer :: Dict

text \<open>\<open>Reader\<close>. The byte buffer \<open>data\<close> never changes; what is read from it is read through the
  parsers below.\<close>

record Reader =
  xref :: XrefTable
  cache :: "int \<rightharpoonup> Object"
  objStm :: "int \<rightharpoonup> (int \<rightharpoonup> Object)"

text \<open>The parsers and the decoders that the reader calls on the byte buffer, as functions of their
  arguments: \<open>ParseXref\<close> and \<open>ParseObjectAt\<close> at an offset of the buffer (the latter giving the
  object of the indirect object), \<open>ParseObjectsFromStream\<close>, and the decoders of the filters
  other than LZW.\<close>

record Parsers =
  ParseXref :: "int \<Rightarrow> error + XrefTable"
  ParseObjectAt :: "int \<Rightarrow> error + Object"
  ParseObjectsFromStream :: "byte list \<Rightarrow> Dict \<Rightarrow> error + (int \<rightharpoonup> Object)"
  decodeFlateDecode :: "byte list \<Rightarrow> Dict \<Rightarrow> error + byte list"
  decodeASCIIHex :: "byte list \<Rightarrow> error + byte list"
  decodeASCII85 :: "byte list \<Rightarrow> error + byte list"

text \<open>\<open>decodeLZW\<close> of package cos.\<close>

definition decodeLZW :: "byte list \<Rightarrow> Dict \<Rightarrow> error + byte list" where
  "decodeLZW data dict = Inl LZWNotImplemented"

text \<open>The loop \<open>for _, f := range filters\<close> of \<open>DecodeStream\<close>. An unknown filter returns at once;
  the error of a decoder is wrapped.\<close>

fun applyFilters :: "Parsers \<Rightarrow> Dict \<Rightarrow> string list \<Rightarrow> byte list \<Rightarrow> error + byte list" where
  "applyFilters L dict [] data = Inr data"
| "applyFilters L dict (f # filters) data =
     (if f = ''FlateDecode'' then
        (case decodeFlateDecode L data dict of
           Inl err \<Rightarrow> Inl (FilterFailed f err) | Inr data' \<Rightarrow> applyFilters L dict filters data')
      else if f = ''ASCIIHexDecode'' then
        (case decodeASCIIHex L data of
           Inl err \<Rightarrow> Inl (FilterFailed f err) | Inr data' \<Rightarrow> applyFilters L dict filters data')
      else if f = ''ASCII85Decode'' then
        (case decodeASCII85 L data of
           Inl err \<Rightarrow> Inl (FilterFailed f err) | Inr data' \<Rightarrow> applyFilters L dict filters data')
      else if f = ''LZWDecode'' then
        (case decodeLZW data dict of
           Inl err \<Rightarrow> Inl (FilterFailed f err) | Inr data' \<Rightarrow> applyFilters L dict filters data')
      else Inl (UnsupportedFilter f))"

text \<open>\<open>GetObject\<close>, \<open>getObjectAtOffset\<close>, \<open>getObjectFromStream\<close>, \<open>Resolve\<close> and \<open>DecodeStream\<close> call
  one another and update the caches of the reader. Each is a relation between the reader
  before the call, the arguments, the result and the reader after the call, with one rule for
  every path through the function; a call that does not return has no result.
  \<open>filterNames\<close> is the loop of \<open>DecodeStream\<close> over the items of a filter array.\<close>

inductive
  GetObject :: "Parsers \<Rightarrow> Reader \<Rightarrow> int \<Rightarrow> error + Object \<Rightarrow> Reader \<Rightarrow> bool" and
  getObjectAtOffset :: "Parsers \<Rightarrow> Reader \<Rightarrow> int \<Rightarrow> int \<Rightarrow> error + Object \<Rightarrow> Reader \<Rightarrow> bool" and
  getObjectFromStream ::
    "Parsers \<Rightarrow> Reader \<Rightarrow> int \<Rightarrow> int \<Rightarrow> int \<Rightarrow> error + Object \<Rightarrow> Reader \<Rightarrow> bool" and
  Resolve :: "Parsers \<Rightarrow> Reader \<Rightarrow> Object \<Rightarrow> error + Object \<Rightarrow> Reader \<Rightarrow> bool" and
  filterNames :: "Parsers \<Rightarrow> Reader \<Rightarrow> Object list \<Rightarrow> string list \<Rightarrow> string list \<Rightarrow> Reader \<Rightarrow> bool" and
  DecodeStream :: "Parsers \<Rightarrow> Reader \<Rightarrow> Dict \<Rightarrow> byte list \<Rightarrow> error + byte list \<Rightarrow> Reader \<Rightarrow> bool"
where
  GetObject_cached:
    "cache r objNum = Some obj \<Longrightarrow> GetObject L r objNum (Inr obj) r"
| GetObject_not_found:
    "cache r objNum = None \<Longrightarrow> Entries (xref r) objNum = None \<Longrightarrow>
     GetObject L r objNum (Inl (ObjectNotInXref objNum)) r"
| GetObject_free:
    "cache r objNum = None \<Longrightarrow> Entries (xref r) objNum = Some entry \<Longrightarrow> \<not> InUse entry \<Longrightarrow>
     GetObject L r objNum (Inr NullObj) r"
| GetObject_stream_error:
    "cache r objNum = None \<Longrightarrow> Entries (xref r) objNum = Some entry \<Longrightarrow> InUse entry \<Longrightarrow>
     ObjectStreamNum entry > 0 \<Longrightarrow>
     getObjectFromStream L r (ObjectStreamNum entry) (IndexInStream entry) objNum (Inl err) r' \<Longrightarrow>
     GetObject L r objNum (Inl err) r'"
| GetObject_stream:
    "cache r objNum = None \<Longrightarrow> Entries (xref r) objNum = Some entry \<Longrightarrow> InUse entry \<Longrightarrow>
     ObjectStreamNum entry > 0 \<Longrightarrow>
     getObjectFromStream L r (ObjectStreamNum entry) (IndexInStream entry) objNum (Inr obj) r' \<Longrightarrow>
     GetObject L r objNum (Inr obj) (r'\<lparr>cache := (cache r')(objNum \<mapsto> obj)\<rparr>)"
| GetObject_offset_error:
    "cache r objNum = None \<Longrightarrow> Entries (xref r) objNum = Some entry \<Longrightarrow> InUse entry \<Longrightarrow>
     \<not> ObjectStreamNum entry > 0 \<Longrightarrow>
     getObjectAtOffset L r (Offset entry) objNum (Inl err) r' \<Longrightarrow>
     GetObject L r objNum (Inl err) r'"
| GetObject_offset:
    "cache r objNum = None \<Longrightarrow> Entries (xref r) objNum = Some entry \<Longrightarrow> InUse entry \<Longrightarrow>
     \<not> ObjectStreamNum entry > 0 \<Longrightarrow>
     getObjectAtOffset L r (Offset entry) objNum (Inr obj) r' \<Longrightarrow>
     GetObject L r objNum (Inr obj) (r'\<lparr>cache := (cache r')(objNum \<mapsto> obj)\<rparr>)"

| AtOffset_parse_error:
    "ParseObjectAt L offset = Inl err \<Longrightarrow>
     getObjectAtOffset L r offset expectedObjNum (Inl (ParseObjectFailed offset err)) r"
| AtOffset_length_resolved:
    "ParseObjectAt L offset = Inr (StreamObj dict data) \<Longrightarrow>
     Get dict ''Length'' = Some (ReferenceObj n g) \<Longrightarrow>
     GetObject L r n (Inr (IntegerObj len)) r' \<Longrightarrow>
     getObjectAtOffset L r offset expectedObjNum
       (Inr (StreamObj (dict_set dict ''Length'' (IntegerObj len)) data)) r'"
| AtOffset_length_unresolved:
    "ParseObjectAt L offset = Inr (StreamObj dict data) \<Longrightarrow>
     Get dict ''Length'' = Some (ReferenceObj n g) \<Longrightarrow>
     GetObject L r n res r' \<Longrightarrow> (\<forall>len. res \<noteq> Inr (IntegerObj len)) \<Longrightarrow>
     getObjectAtOffset L r offset expectedObjNum (Inr (StreamObj dict data)) r'"
| AtOffset_stream:
    "ParseObjectAt L offset = Inr (StreamObj dict data) \<Longrightarrow>
     (\<forall>n g. Get dict ''Length'' \<noteq> Some (ReferenceObj n g)) \<Longrightarrow>
     getObjectAtOffset L r offset expectedObjNum (Inr (StreamObj dict data)) r"
| AtOffset_other:
    "ParseObjectAt L offset = Inr obj \<Longrightarrow> (\<forall>dict data. obj \<noteq> StreamObj dict data) \<Longrightarrow>
     getObjectAtOffset L r offset expectedObjNum (Inr obj) r"

| FromStream_cached:
    "objStm r streamObjNum = Some objects \<Longrightarrow> objects targetObjNum = Some obj \<Longrightarrow>
     getObjectFromStream L r streamObjNum index targetObjNum (Inr obj) r"
| FromStream_get_error:
    "(\<forall>objects. objStm r streamObjNum = Some objects \<longrightarrow> objects targetObjNum = None) \<Longrightarrow>
     GetObject L r streamObjNum (Inl err) r' \<Longrightarrow>
     getObjectFromStream L r streamObjNum index targetObjNum
       (Inl (ObjectStreamFailed streamObjNum err)) r'"
| FromStream_not_stream:
    "(\<forall>objects. objStm r streamObjNum = Some objects \<longrightarrow> objects targetObjNum = None) \<Longrightarrow>
     GetObject L r streamObjNum (Inr streamObj) r' \<Longrightarrow>
     (\<forall>dict data. streamObj \<noteq> StreamObj dict data) \<Longrightarrow>
     getObjectFromStream L r streamObjNum index targetObjNum (Inl (NotAStream streamObjNum)) r'"
| FromStream_decode_error:
    "(\<forall>objects. objStm r streamObjNum = Some objects \<longrightarrow> objects targetObjNum = None) \<Longrightarrow>
     GetObject L r streamObjNum (Inr (StreamObj dict data)) r' \<Longrightarrow>
     DecodeStream L r' dict data (Inl err) r'' \<Longrightarrow>
     getObjectFromStream L r streamObjNum index targetObjNum (Inl (DecodeObjectStreamFailed err)) r''"
| FromStream_parse_error:
    "(\<forall>objects. objStm r streamObjNum = Some objects \<longrightarrow> objects targetObjNum = None) \<Longrightarrow>
     GetObject L r streamObjNum (Inr (StreamObj dict data)) r' \<Longrightarrow>
     DecodeStream L r' dict data (Inr decoded) r'' \<Longrightarrow>
     ParseObjectsFromStream L decoded dict = Inl err \<Longrightarrow>
     getObjectFromStream L r streamObjNum index targetObjNum (Inl (ParseObjectStreamFailed err)) r''"
| FromStream_found:
    "(\<forall>objects. objStm r streamObjNum = Some objects \<longrightarrow> objects targetObjNum = None) \<Longrightarrow>
     GetObject L r streamObjNum (Inr (StreamObj dict data)) r' \<Longrightarrow>
     DecodeStream L r' dict data (Inr decoded) r'' \<Longrightarrow>
     ParseObjectsFromStream L decoded dict = Inr objects \<Longrightarrow>
     objects targetObjNum = Some obj \<Longrightarrow>
     getObjectFromStream L r streamObjNum index targetObjNum (Inr obj)
       (r''\<lparr>objStm := (objStm r'')(streamObjNum \<mapsto> objects)\<rparr>)"
| FromStream_missing:
    "(\<forall>objects. objStm r streamObjNum = Some objects \<longrightarrow> objects targetObjNum = None) \<Longrightarrow>
     GetObject L r streamObjNum (Inr (StreamObj dict data)) r' \<Longrightarrow>
     DecodeStream L r' dict data (Inr decoded) r'' \<Longrightarrow>
     ParseObjectsFromStream L decoded dict = Inr objects \<Longrightarrow>
     objects targetObjNum = None \<Longrightarrow>
     getObjectFromStream L r streamObjNum index targetObjNum
       (Inl (NotInObjectStream targetObjNum streamObjNum))
       (r''\<lparr>objStm := (objStm r'')(streamObjNum \<mapsto> objects)\<rparr>)"

| Resolve_reference:
    "GetObject L r n res r' \<Longrightarrow> Resolve L r (ReferenceObj n g) res r'"
| Resolve_other:
    "(\<forall>n g. obj \<noteq> ReferenceObj n g) \<Longrightarrow> Resolve L r obj (Inr obj) r"

| filterNames_done:
    "filterNames L r [] filters filters r"
| filterNames_name:
    "Resolve L r item (Inr (NameObj n)) r' \<Longrightarrow> filterNames L r' items (filters @ [n]) names r'' \<Longrightarrow>
     filterNames L r (item # items) filters names r''"
| filterNames_skip:
    "Resolve L r item res r' \<Longrightarrow> (\<forall>n. res \<noteq> Inr (NameObj n)) \<Longrightarrow>
     filterNames L r' items filters names r'' \<Longrightarrow>
     filterNames L r (item # items) filters names r''"

| DecodeStream_no_filter:
    "Get dict ''Filter'' = None \<Longrightarrow> DecodeStream L r dict data (Inr data) r"
| DecodeStream_name:
    "Get dict ''Filter'' = Some flt \<Longrightarrow> Resolve L r flt (Inr (NameObj f)) r' \<Longrightarrow>
     DecodeStream L r dict data (applyFilters L dict [f] data) r'"
| DecodeStream_array:
    "Get dict ''Filter'' = Some flt \<Longrightarrow> Resolve L r flt (Inr (ArrayObj items)) r' \<Longrightarrow>
     filterNames L r' items [] names r'' \<Longrightarrow>
     DecodeStream L r dict data (applyFilters L dict names data) r''"
| DecodeStream_other:
    "Get dict ''Filter'' = Some flt \<Longrightarrow> Resolve L r flt res r' \<Longrightarrow>
     (\<forall>f. res \<noteq> Inr (NameObj f)) \<Longrightarrow> (\<forall>items. res \<noteq> Inr (ArrayObj items)) \<Longrightarrow>
     DecodeStream L r dict data (Inr data) r'"

text \<open>The cache of a reader holds objects of in-use entries only. It is empty in a new reader,
  and \<open>GetObject\<close> stores an object only after it has found the entry in use.\<close>

definition cacheInUse :: "Reader \<Rightarrow> bool" where
  "cacheInUse r \<longleftrightarrow>
     (\<forall>n obj. cache r n = Some obj \<longrightarrow> (\<exists>e. Entries (xref r) n = Some e \<and> InUse e))"

text \<open>A small document for running the reader: object 0 is free, object 1 is the integer 42 at
  offset 10; nothing else parses.\<close>

definition exampleParsers :: Parsers where
  "exampleParsers =
     \<lparr>ParseXref = (\<lambda>offset. Inl (ExternalError ''no xref'')),
      ParseObjectAt = (\<lambda>offset. if offset = 10 then Inr (IntegerObj 42)
                                 else Inl (ExternalError ''no object'')),
      ParseObjectsFromStream = (\<lambda>decoded dict. Inl (ExternalError ''no object stream'')),
      decodeFlateDecode = (\<lambda>data dict. Inl (ExternalError ''zlib'')),
      decodeASCIIHex = (\<lambda>data. Inr data),
      decodeASCII85 = (\<lambda>data. Inr data)\<rparr>"

definition exampleReader :: Reader where
  "exampleReader =
     \<lparr>xref = \<lparr>Entries = [0 \<mapsto> \<lparr>Offset = 0, Generation = 65535, InUse = False, ObjectStreamNum = 0,
                                 IndexInStream = 0\<rparr>,
                           1 \<mapsto> \<lparr>Offset = 10, Generation = 0, InUse = True, ObjectStreamNum = 0,
                                 IndexInStream = 0\<rparr>],
               Trailer = []\<rparr>,
      cache = Map.empty, objStm = Map.empty\<rparr>"

section \<open>The recursive traversals\<close>

subsection \<open>Package cos: the Prev chain\<close>

text \<open>\<open>Reader.loadPrevXref\<close>. It works on the table \<open>r.xref\<close> only, which is passed and returned; the
  result is the error returned (nil is \<open>None\<close>) with the table. Entries of the older table are
  added where the current table has none. A call that does not return has the value \<open>None\<close>.\<close>

partial_function (option) loadPrevXref ::
  "Parsers \<Rightarrow> XrefTable \<Rightarrow> int \<Rightarrow> (error option \<times> XrefTable) option" where
  "loadPrevXref L x offset =
     (case ParseXref L offset of
        Inl err \<Rightarrow> Some (Some err, x)
      | Inr prevXref \<Rightarrow>
          (case GetInt (Trailer prevXref) ''Prev'' of
             Some prevPrev \<Rightarrow>
               loadPrevXref L (x\<lparr>Entries := Entries prevXref ++ Entries x\<rparr>) prevPrev
           | None \<Rightarrow> Some (None, x\<lparr>Entries := Entries prevXref ++ Entries x\<rparr>)))"

declare loadPrevXref.simps [code]


subsection \<open>Package cos: the page tree\<close>

text \<open>\<open>Reader.findPage\<close> reads the tree through \<open>r.ResolveArray\<close> and \<open>r.ResolveDict\<close>. Their
  results are taken as functions of the object resolved: the reader only fills its caches.\<close>

record Resolver =
  ResolveArray :: "Object \<Rightarrow> error + Object list"
  ResolveDict :: "Object \<Rightarrow> error + Dict"

text \<open>\<open>findPage\<close> has two places where it continues: its entry with a node (\<open>Inl\<close>: the node and
  \<open>currentPage\<close>), and the loop over the kids of a node (\<open>Inr\<close>: the kids left and \<open>pageIndex\<close>),
  which calls \<open>findPage\<close> again on a kid that is a Pages node.\<close>

partial_function (option) findPage_rec ::
  "Resolver \<Rightarrow> int \<Rightarrow> (Dict \<times> int) + (Object list \<times> int) \<Rightarrow> (error + Dict) option" where
  "findPage_rec R targetPage at =
     (case at of
        Inl (node, currentPage) \<Rightarrow>
          if GetName node ''Type'' = Some ''Page'' then
            (if currentPage = targetPage then Some (Inr node) else Some (Inl PageNotFound))
          else
            (case Get node ''Kids'' of
               None \<Rightarrow> Some (Inl PagesWithoutKids)
             | Some kids \<Rightarrow>
                 (case ResolveArray R kids of
                    Inl err \<Rightarrow> Some (Inl err)
                  | Inr kidsArray \<Rightarrow> findPage_rec R targetPage (Inr (kidsArray, currentPage))))
      | Inr ([], pageIndex) \<Rightarrow> Some (Inl (PageNumberNotFound targetPage))
      | Inr (kid # kidsArray, pageIndex) \<Rightarrow>
          (case ResolveDict R kid of
             Inl err \<Rightarrow> findPage_rec R targetPage (Inr (kidsArray, pageIndex))
           | Inr kidDict \<Rightarrow>
               if GetName kidDict ''Type'' = Some ''Page'' then
                 (if pageIndex = targetPage then Some (Inr kidDict)
                  else findPage_rec R targetPage (Inr (kidsArray, pageIndex + 1)))
               else
                 (let count = (case GetInt kidDict ''Count'' of Some c \<Rightarrow> c | None \<Rightarrow> 0)
                  in if pageIndex + count > targetPage
                     then findPage_rec R targetPage (Inl (kidDict, pageIndex))
                     else findPage_rec R targetPage (Inr (kidsArray, pageIndex + count)))))"

declare findPage_rec.simps [code]

definition findPage :: "Resolver \<Rightarrow> Dict \<Rightarrow> int \<Rightarrow> int \<Rightarrow> (error + Dict) option" where
  "findPage R node targetPage currentPage = findPage_rec R targetPage (Inl (node, currentPage))"

subsection \<open>Package font: compound glyphs\<close>

text \<open>A \<open>Glyph\<close> with the fields the renderer needs to tell a compound glyph and to walk its
  components; the bounding box and the outline arrays are read by \<open>simpleGlyphToPath\<close> only.\<close>

record 'a GlyphComponent =
  GlyphIndex :: "16 word"
  Flags :: "16 word"
  Arg1 :: int
  Arg2 :: int
  Scale :: 'a
  ScaleX :: 'a
  ScaleY :: 'a
  Scale01 :: 'a
  Scale10 :: 'a

record 'a Glyph =
  NumContours :: int
  Components :: "'a GlyphComponent list"

definition IsCompound :: "'a Glyph \<Rightarrow> bool" where
  "IsCompound g \<longleftrightarrow> NumContours g < 0"

text \<open>\<open>Renderer\<close>: the font, through its \<open>GetGlyph\<close>, and the two scale factors. The outline
  conversion \<open>simpleGlyphToPath\<close>, which does not recurse, and the conversion \<open>float64(n)\<close> of an
  \<open>int16\<close> are parameters.\<close>

record 'a Renderer =
  GetGlyph :: "16 word \<Rightarrow> error + 'a Glyph"
  scale :: 'a
  hScale :: 'a
  simpleGlyphToPath :: "'a Glyph \<Rightarrow> 'a Path"
  floatOfInt16 :: "int \<Rightarrow> 'a"

text \<open>The body of the loop of \<open>compoundGlyphToPath\<close> after the path of the component is there:
  the matrix of the component, the transformed path, and its segments added to \<open>result\<close>.\<close>

definition addSegment :: "'a Path \<Rightarrow> 'a PathSegment \<Rightarrow> 'a Path" where
  "addSegment result seg =
     (case Op seg of
        PathOpMoveTo \<Rightarrow>
          (if length (Points seg) > 0
           then MoveTo (X (Points seg ! 0)) (Y (Points seg ! 0)) result else result)
      | PathOpLineTo \<Rightarrow>
          (if length (Points seg) > 0
           then LineTo (X (Points seg ! 0)) (Y (Points seg ! 0)) result else result)
      | PathOpCurveTo \<Rightarrow>
          (if length (Points seg) \<ge> 3
           then CurveTo (X (Points seg ! 0)) (Y (Points seg ! 0)) (X (Points seg ! 1)) (Y (Points seg ! 1))
                  (X (Points seg ! 2)) (Y (Points seg ! 2)) result
           else result)
      | PathOpClose \<Rightarrow> Close result)"

definition addComponent ::
  "'a::{zero,one,plus,times} Renderer \<Rightarrow> 'a GlyphComponent \<Rightarrow> 'a Path \<Rightarrow> 'a Path \<Rightarrow> 'a Path" where
  "addComponent R cpt compPath result =
     (let dx = floatOfInt16 R (Arg1 cpt) * scale R * hScale R;
          dy = floatOfInt16 R (Arg2 cpt) * scale R;
          m = (if Scale cpt \<noteq> 1 \<or> ScaleX cpt \<noteq> 1 \<or> ScaleY cpt \<noteq> 1 \<or>
                  Scale01 cpt \<noteq> 0 \<or> Scale10 cpt \<noteq> 0
               then Multiply Identity (Matrix (ScaleX cpt) (Scale01 cpt) (Scale10 cpt) (ScaleY cpt) 0 0)
               else Identity);
          transformed = Path_Transform compPath (Multiply m (Translate dx dy))
      in foldl addSegment result (Segments transformed))"

text \<open>\<open>GlyphToPath\<close> (\<open>Inl\<close>: the glyph id) and the loop of \<open>compoundGlyphToPath\<close> over the components
  (\<open>Inr\<close>: the components left and \<open>result\<close>), which calls \<open>GlyphToPath\<close> for each component and
  goes on with the next one when that call returns an error.\<close>

partial_function (option) GlyphToPath_rec ::
  "'a::{zero,one,plus,times} Renderer \<Rightarrow> 16 word + ('a GlyphComponent list \<times> 'a Path) \<Rightarrow>
   (error + 'a Path) option" where
  "GlyphToPath_rec R at =
     (case at of
        Inl glyphID \<Rightarrow>
          (case GetGlyph R glyphID of
             Inl err \<Rightarrow> Some (Inl err)
           | Inr glyph \<Rightarrow>
               if IsCompound glyph then GlyphToPath_rec R (Inr (Components glyph, NewPath))
               else Some (Inr (simpleGlyphToPath R glyph)))
      | Inr ([], result) \<Rightarrow> Some (Inr result)
      | Inr (cpt # cpts, result) \<Rightarrow>
          Option.bind (GlyphToPath_rec R (Inl (GlyphIndex cpt)))
            (\<lambda>res. case res of
                     Inl err \<Rightarrow> GlyphToPath_rec R (Inr (cpts, result))
                   | Inr compPath \<Rightarrow>
                       GlyphToPath_rec R (Inr (cpts, addComponent R cpt compPath result))))"

declare GlyphToPath_rec.simps [code]

definition GlyphToPath :: "'a::{zero,one,plus,times} Renderer \<Rightarrow> 16 word \<Rightarrow> (error + 'a Path) option" where
  "GlyphToPath R glyphID = GlyphToPath_rec R (Inl glyphID)"

definition compoundGlyphToPath ::
  "'a::{zero,one,plus,times} Renderer \<Rightarrow> 'a Glyph \<Rightarrow> (error + 'a Path) option" where
  "compoundGlyphToPath R glyph = GlyphToPath_rec R (Inr (Components glyph, NewPath))"





definition chainPrev :: Parsers where
  "chainPrev =
     exampleParsers\<lparr>ParseXref :=
       (\<lambda>offset. if offset = 100 then Inr \<lparr>Entries = Map.empty, Trailer = [(''Prev'', IntegerObj 50)]\<rparr>
                  else if offset = 50 then Inr \<lparr>Entries = Map.empty, Trailer = []\<rparr>
                  else Inl (ExternalError ''no xref''))\<rparr>"

definition arrayOf :: "Object \<Rightarrow> error + Object list" where
  "arrayOf obj = (case obj of ArrayObj items \<Rightarrow> Inr items | _ \<Rightarrow> Inl ExpectedArray)"



definition pageLeaf :: Dict where
  "pageLeaf = [(''Type'', NameObj ''Page'')]"

definition pagesInner :: Dict where
  "pagesInner =
     [(''Type'', NameObj ''Pages''), (''Kids'', ArrayObj [ReferenceObj 3 0]), (''Count'', IntegerObj 1)]"

definition pagesRoot :: Dict where
  "pagesRoot =
     [(''Type'', NameObj ''Pages''), (''Kids'', ArrayObj [ReferenceObj 2 0]), (''Count'', IntegerObj 1)]"

definition treePages :: Resolver where
  "treePages =
     \<lparr>ResolveArray = arrayOf,
      ResolveDict = (\<lambda>obj. if obj = ReferenceObj 2 0 then Inr pagesInner
                           else if obj = ReferenceObj 3 0 then Inr pageLeaf
                           else Inl ExpectedDict)\<rparr>"


definition selfComponent :: "int GlyphComponent" where
  "selfComponent =
     \<lparr>GlyphIndex = 0, Flags = 0, Arg1 = 0, Arg2 = 0, Scale = 1, ScaleX = 1, ScaleY = 1,
      Scale01 = 0, Scale10 = 0\<rparr>"


definition accentedGlyphs :: "int Renderer" where
  "accentedGlyphs =
     \<lparr>GetGlyph = (\<lambda>glyphID. if glyphID = 1 then Inr \<lparr>NumContours = - 1, Components = [selfComponent]\<rparr>
                            else Inr \<lparr>NumContours = 0, Components = []\<rparr>),
      scale = 1, hScale = 1, simpleGlyphToPath = (\<lambda>glyph. MoveTo 1 2 NewPath), floatOfInt16 = (\<lambda>n. n)\<rparr>"

section \<open>Properties\<close>

subsection \<open>RunLengthDecode\<close>

lemma DecodeRunLength_loop_spec:
  "i \<le> length data \<Longrightarrow>
   DecodeRunLength_loop data i result = result @ RunLength_spec (drop i data)"
proof (induction data i result rule: DecodeRunLength_loop.induct)
  case (1 data i result)
  show ?case
  proof (cases "i < length data")
    case False
    with "1.prems" show ?thesis by simp
  next
    case True
    then have d: "drop i data = data ! i # drop (Suc i) data"
      by (simp add: Cons_nth_drop_Suc)
    show ?thesis
    proof (cases "unat (data ! i) = 128")
      case True
      with \<open>i < length data\<close> d show ?thesis by simp
    next
      case ne: False
      show ?thesis
      proof (cases "unat (data ! i) < 128")
        case lit: True
        show ?thesis
        proof (cases "(i + 1) + (unat (data ! i) + 1) > length data")
          case trunc: True
          have "DecodeRunLength_loop data i result =
                DecodeRunLength_loop data ((i + 1) + (length data - (i + 1)))
                   (result @ take (length data - (i + 1)) (drop (i + 1) data))"
            using True ne lit trunc by (subst DecodeRunLength_loop.simps) simp
          also have "\<dots> = (result @ take (length data - (i + 1)) (drop (i + 1) data))
                 @ RunLength_spec (drop ((i + 1) + (length data - (i + 1))) data)"
            using "1.IH"(1) True ne lit trunc by simp
          finally show ?thesis using True ne lit trunc d by simp
        next
          case full: False
          have "DecodeRunLength_loop data i result =
                DecodeRunLength_loop data ((i + 1) + (unat (data ! i) + 1))
                   (result @ take (unat (data ! i) + 1) (drop (i + 1) data))"
            using True ne lit full by (subst DecodeRunLength_loop.simps) simp
          also have "\<dots> = (result @ take (unat (data ! i) + 1) (drop (i + 1) data))
                 @ RunLength_spec (drop ((i + 1) + (unat (data ! i) + 1)) data)"
            using "1.IH"(2) True ne lit full by simp
          finally show ?thesis using True ne lit full d by (simp add: add.commute)
        qed
      next
        case rep: False
        show ?thesis
        proof (cases "i + 1 \<ge> length data")
          case last: True
          with True have "drop (Suc i) data = []" by simp
          with True ne rep last d show ?thesis by simp
        next
          case more: False
          then have d2: "drop (Suc i) data = data ! (i + 1) # drop (i + 2) data"
            by (simp add: Cons_nth_drop_Suc)
          have "DecodeRunLength_loop data i result =
                DecodeRunLength_loop data (i + 2)
                  (result @ replicate (257 - unat (data ! i)) (data ! (i + 1)))"
            using True ne rep more by (subst DecodeRunLength_loop.simps) simp
          also have "\<dots> = (result @ replicate (257 - unat (data ! i)) (data ! (i + 1)))
                 @ RunLength_spec (drop (i + 2) data)"
            using "1.IH"(3) True ne rep more by simp
          finally show ?thesis using True ne rep more d d2 by simp
        qed
      qed
    qed
  qed
qed

text \<open>Claim C10. \<open>DecodeRunLength\<close> is total and never returns an error: for every input it
  returns the bytes given by the run-length rule, where a length byte 128 ends decoding,
  a length byte 0..127 copies the next length+1 bytes (only those that remain when the input
  is truncated), and a length byte 129..255 repeats the next byte 257-length times (nothing
  when no byte remains).\<close>

theorem DecodeRunLength_total:
  "DecodeRunLength data = Inr (RunLength_spec data)"
  using DecodeRunLength_loop_spec [of 0 data "[]"] by (simp add: DecodeRunLength_def)

subsection \<open>Graphics-state stack\<close>

lemma Path_Clone_id: "Path_Clone p = p"
proof -
  have "map (\<lambda>seg. \<lparr>Op = Op seg, Points = map (\<lambda>pt. pt) (Points seg)\<rparr>) xs = xs"
    for xs :: "'a PathSegment list"
    by (induction xs) auto
  then show ?thesis by (simp add: Path_Clone_def)
qed

text \<open>The deep copy is equal, as a value, to the state it copies.\<close>

lemma Clone_id: "Clone s = s"
  by (cases s) (auto simp: Clone_def Path_Clone_id split: option.splits)

lemma Current_states_nonempty: "Current_states P st \<noteq> []"
  by (simp add: Current_states_def)

lemma Current_states_id: "st \<noteq> [] \<Longrightarrow> Current_states P st = st"
  by (simp add: Current_states_def)

lemma Current_Current_states: "Current P (Current_states P st) = Current P st"
  by (simp add: Current_def Current_states_def)

lemma stack_executeOp_q:
  "Name op = ''q'' \<Longrightarrow> st = Current_states P (stack i) \<Longrightarrow>
   stack (snd (executeOp P i op)) = st @ [last st]"
  by (simp add: executeOp_def Push_def Clone_id Current_def Current_states_def Let_def)

lemma stack_executeOp_Q:
  "Name op = ''Q'' \<Longrightarrow> st = Current_states P (stack i) \<Longrightarrow>
   stack (snd (executeOp P i op)) = (if length st > 1 then butlast st else st)"
  by (simp add: executeOp_def Pop_def butlast_conv_take Let_def)

lemma stack_executeOp_other:
  "Name op \<noteq> ''q'' \<Longrightarrow> Name op \<noteq> ''Q'' \<Longrightarrow> st = Current_states P (stack i) \<Longrightarrow>
   \<exists>s'. stack (snd (executeOp P i op)) = butlast st @ [s']"
  by (simp add: executeOp_def Let_def split: prod.splits)

lemma stack_executeOp_nonempty: "stack (snd (executeOp P i op)) \<noteq> []"
proof (cases "Name op = ''q''")
  case True
  then show ?thesis using stack_executeOp_q [OF True refl, of P i] by simp
next
  case nq: False
  show ?thesis
  proof (cases "Name op = ''Q''")
    case True
    then show ?thesis
      using stack_executeOp_Q [OF True refl, of P i] Current_states_nonempty [of P "stack i"]
      by (auto simp: butlast_conv_take)
  next
    case False
    then show ?thesis using stack_executeOp_other [OF nq False refl, of P i] by auto
  qed
qed

text \<open>Running the operators one after the other.\<close>

lemma Execute_Nil: "snd (Execute P i []) = i"
  by (simp add: Execute_def)

lemma Execute_Cons: "snd (Execute P i (op # ops)) = snd (Execute P (snd (executeOp P i op)) ops)"
  by (simp add: Execute_def)

lemma Execute_append:
  "snd (Execute P i (ops1 @ ops2)) = snd (Execute P (snd (Execute P i ops1)) ops2)"
  by (simp add: Execute_def)

text \<open>The states below the depth at which a well-nested list starts are never touched.\<close>

lemma nesting_keeps_base:
  "nesting d ops = Some d' \<Longrightarrow> length (stack i) = n + d \<Longrightarrow> 1 \<le> n \<Longrightarrow>
   take n (stack (snd (Execute P i ops))) = take n (stack i) \<and>
   length (stack (snd (Execute P i ops))) = n + d'"
proof (induction ops arbitrary: d i)
  case Nil
  then show ?case by (simp add: Execute_Nil)
next
  case (Cons op ops)
  let ?st = "stack i"
  let ?j = "snd (executeOp P i op)"
  from Cons.prems have ne: "?st \<noteq> []" by auto
  then have cs: "Current_states P ?st = ?st" by (rule Current_states_id)
  show ?case
  proof (cases "Name op = ''q''")
    case True
    have sj: "stack ?j = ?st @ [last ?st]" using stack_executeOp_q [OF True refl, of P i] cs by simp
    from Cons.prems True have n: "nesting (d + 1) ops = Some d'" by simp
    have "take n (stack (snd (Execute P ?j ops))) = take n (stack ?j) \<and>
          length (stack (snd (Execute P ?j ops))) = n + d'"
      by (rule Cons.IH [OF n _ Cons.prems(3)]) (simp add: sj Cons.prems(2))
    then show ?thesis using sj Cons.prems(2) by (simp add: Execute_Cons)
  next
    case nq: False
    with Cons.prems have dpos: "d > 0" by (auto split: if_splits)
    show ?thesis
    proof (cases "Name op = ''Q''")
      case True
      have sj: "stack ?j = butlast ?st"
        using stack_executeOp_Q [OF True refl, of P i] cs dpos Cons.prems(2,3) by simp
      from Cons.prems nq True dpos have n: "nesting (d - 1) ops = Some d'" by simp
      have "take n (stack (snd (Execute P ?j ops))) = take n (stack ?j) \<and>
            length (stack (snd (Execute P ?j ops))) = n + d'"
        by (rule Cons.IH [OF n _ Cons.prems(3)]) (use sj Cons.prems(2) dpos in simp)
      then show ?thesis using sj Cons.prems(2) dpos by (simp add: Execute_Cons butlast_conv_take)
    next
      case False
      obtain s' where sj: "stack ?j = butlast ?st @ [s']"
        using stack_executeOp_other [OF nq False refl, of P i] cs by auto
      from Cons.prems nq False dpos have n: "nesting d ops = Some d'" by simp
      have "take n (stack (snd (Execute P ?j ops))) = take n (stack ?j) \<and>
            length (stack (snd (Execute P ?j ops))) = n + d'"
        by (rule Cons.IH [OF n _ Cons.prems(3)]) (use sj Cons.prems(2) dpos in simp)
      then show ?thesis using sj Cons.prems(2) dpos by (simp add: Execute_Cons butlast_conv_take)
    qed
  qed
qed

lemma nesting_restores_stack:
  assumes "nesting 0 ops = Some 0" and "stack i \<noteq> []"
  shows "stack (snd (Execute P i ops)) = stack i"
proof -
  have "1 \<le> length (stack i)" using assms(2) by (cases "stack i") auto
  with nesting_keeps_base [OF assms(1), of i "length (stack i)" P]
  have t: "take (length (stack i)) (stack (snd (Execute P i ops))) = stack i"
    and l: "length (stack (snd (Execute P i ops))) = length (stack i)" by simp_all
  from l have "take (length (stack i)) (stack (snd (Execute P i ops))) = stack (snd (Execute P i ops))"
    by simp
  with t show ?thesis by simp
qed

text \<open>From a stack that holds the base state only, extra \<open>Q\<close> operators change nothing.\<close>

lemma clampedNesting_keeps_base:
  "clampedNesting d ops = Some d' \<Longrightarrow> length (stack i) = 1 + d \<Longrightarrow>
   take 1 (stack (snd (Execute P i ops))) = take 1 (stack i) \<and>
   length (stack (snd (Execute P i ops))) = 1 + d'"
proof (induction ops arbitrary: d i)
  case Nil
  then show ?case by (simp add: Execute_Nil)
next
  case (Cons op ops)
  let ?st = "stack i"
  let ?j = "snd (executeOp P i op)"
  from Cons.prems have ne: "?st \<noteq> []" by auto
  then have cs: "Current_states P ?st = ?st" by (rule Current_states_id)
  show ?case
  proof (cases "Name op = ''q''")
    case True
    have sj: "stack ?j = ?st @ [last ?st]" using stack_executeOp_q [OF True refl, of P i] cs by simp
    from Cons.prems True have n: "clampedNesting (d + 1) ops = Some d'" by simp
    have "take 1 (stack (snd (Execute P ?j ops))) = take 1 (stack ?j) \<and>
          length (stack (snd (Execute P ?j ops))) = 1 + d'"
      by (rule Cons.IH [OF n]) (simp add: sj Cons.prems(2))
    then show ?thesis using sj Cons.prems(2) ne by (simp add: Execute_Cons)
  next
    case nq: False
    show ?thesis
    proof (cases "Name op = ''Q''")
      case True
      have sj: "stack ?j = (if d > 0 then butlast ?st else ?st)"
        using stack_executeOp_Q [OF True refl, of P i] cs Cons.prems(2) by simp
      from Cons.prems nq True have n: "clampedNesting (d - 1) ops = Some d'" by simp
      have "take 1 (stack (snd (Execute P ?j ops))) = take 1 (stack ?j) \<and>
            length (stack (snd (Execute P ?j ops))) = 1 + d'"
        by (rule Cons.IH [OF n]) (use sj Cons.prems(2) in auto)
      then show ?thesis using sj Cons.prems(2) by (auto simp: Execute_Cons butlast_conv_take)
    next
      case False
      with Cons.prems nq have dpos: "d > 0" by (auto split: if_splits)
      obtain s' where sj: "stack ?j = butlast ?st @ [s']"
        using stack_executeOp_other [OF nq False refl, of P i] cs by auto
      from Cons.prems nq False dpos have n: "clampedNesting d ops = Some d'" by simp
      have "take 1 (stack (snd (Execute P ?j ops))) = take 1 (stack ?j) \<and>
            length (stack (snd (Execute P ?j ops))) = 1 + d'"
        by (rule Cons.IH [OF n]) (use sj Cons.prems(2) dpos in simp)
      then show ?thesis using sj Cons.prems(2) dpos by (simp add: Execute_Cons butlast_conv_take)
    qed
  qed
qed

lemma clampedNesting_restores_base:
  assumes "clampedNesting 0 ops = Some 0" and "stack i = [base]"
  shows "stack (snd (Execute P i ops)) = [base]"
proof -
  from clampedNesting_keeps_base [OF assms(1), of i P] assms(2)
  have t: "take 1 (stack (snd (Execute P i ops))) = [base]"
    and l: "length (stack (snd (Execute P i ops))) = 1" by simp_all
  from l have "take 1 (stack (snd (Execute P i ops))) = stack (snd (Execute P i ops))" by simp
  with t show ?thesis by simp
qed
lemma stateOp_stack:
  "stateOp P (i\<lparr>stack := st\<rparr>) name ops state pth = stateOp P i name ops state pth"
  by (simp add: stateOp_def cong: operand.case_cong)

lemma executeOp_Current_states:
  "executeOp P (i\<lparr>stack := Current_states P (stack i)\<rparr>) op = executeOp P i op"
  by (simp add: executeOp_def Current_states_def Let_def stateOp_stack split: prod.splits)

lemma Execute_Current_states:
  "ops \<noteq> [] \<Longrightarrow> Execute P (i\<lparr>stack := Current_states P (stack i)\<rparr>) ops = Execute P i ops"
  by (cases ops) (simp_all add: Execute_def executeOp_Current_states)

lemma nesting_restores_Current:
  assumes "nesting 0 ops = Some 0"
  shows "Current P (stack (snd (Execute P i ops))) = Current P (stack i)"
proof (cases "ops = []")
  case True
  then show ?thesis by (simp add: Execute_Nil)
next
  case False
  let ?i = "i\<lparr>stack := Current_states P (stack i)\<rparr>"
  have "stack (snd (Execute P ?i ops)) = stack ?i"
    by (rule nesting_restores_stack [OF assms]) (simp add: Current_states_nonempty)
  then show ?thesis
    using Execute_Current_states [OF False, of P i] by (simp add: Current_Current_states)
qed

lemma Execute_stack_nonempty: "stack i \<noteq> [] \<Longrightarrow> stack (snd (Execute P i ops)) \<noteq> []"
  by (induction ops arbitrary: i) (simp_all add: Execute_Nil Execute_Cons stack_executeOp_nonempty)

text \<open>Claim C4. For every state stack and every operator list in which \<open>q\<close> and \<open>Q\<close> are
  balanced to any depth and all other operators stand between a \<open>q\<close> and its \<open>Q\<close>, the stack
  after the list is the stack before it, so the current state is the state before the list
  with all its fields. A list with more \<open>Q\<close> than \<open>q\<close>, run on the base state, leaves the base
  state as the only and current state: the stack never has fewer than one state.\<close>

theorem q_Q_restores_state:
  "(nesting 0 ops = Some 0 \<longrightarrow> stack i \<noteq> [] \<longrightarrow> stack (snd (Execute P i ops)) = stack i) \<and>
   (nesting 0 ops = Some 0 \<longrightarrow> Current P (stack (snd (Execute P i ops))) = Current P (stack i)) \<and>
   (clampedNesting 0 ops = Some 0 \<longrightarrow> stack i = [base] \<longrightarrow>
      stack (snd (Execute P i ops)) = [base] \<and> Current P (stack (snd (Execute P i ops))) = base) \<and>
   Depth (stack (snd (executeOp P i op))) \<ge> 1 \<and>
   Clone base = base"
proof -
  have "Depth (stack (snd (executeOp P i op))) \<ge> 1"
    using stack_executeOp_nonempty [of P i op]
    by (cases "stack (snd (executeOp P i op))") (simp_all add: Depth_def)
  moreover have "Current P [base] = base" by (simp add: Current_def Current_states_def)
  ultimately show ?thesis
    using nesting_restores_stack [of ops i P] nesting_restores_Current [of ops P i]
      clampedNesting_restores_base [of ops i base P] Clone_id [of base]
    by simp
qed

text \<open>Two operator lists on a new interpreter: the first is balanced to depth 2 and changes the
  matrix and the line width inside; the second has three \<open>Q\<close> for one \<open>q\<close>.\<close>

theorem q_Q_restores_state_witness:
  "nesting 0 [\<lparr>Name = ''q'', Operands = []\<rparr>,
              \<lparr>Name = ''cm'', Operands = [OFloat 2, OFloat 0, OFloat 0, OFloat 2, OFloat 0, OFloat 0]\<rparr>,
              \<lparr>Name = ''q'', Operands = []\<rparr>,
              \<lparr>Name = ''w'', Operands = [OFloat (5::int)]\<rparr>,
              \<lparr>Name = ''Q'', Operands = []\<rparr>,
              \<lparr>Name = ''Q'', Operands = []\<rparr>] = Some 0 \<and>
   stack (NewInterpreter intPrims) \<noteq> [] \<and>
   stack (snd (Execute intPrims (NewInterpreter intPrims)
             [\<lparr>Name = ''q'', Operands = []\<rparr>,
              \<lparr>Name = ''cm'', Operands = [OFloat 2, OFloat 0, OFloat 0, OFloat 2, OFloat 0, OFloat 0]\<rparr>,
              \<lparr>Name = ''q'', Operands = []\<rparr>,
              \<lparr>Name = ''w'', Operands = [OFloat (5::int)]\<rparr>,
              \<lparr>Name = ''Q'', Operands = []\<rparr>,
              \<lparr>Name = ''Q'', Operands = []\<rparr>])) = stack (NewInterpreter intPrims) \<and>
   clampedNesting 0 [\<lparr>Name = ''q'', Operands = []\<rparr>,
              \<lparr>Name = ''w'', Operands = [OFloat (5::int)]\<rparr>,
              \<lparr>Name = ''Q'', Operands = []\<rparr>,
              \<lparr>Name = ''Q'', Operands = []\<rparr>,
              \<lparr>Name = ''Q'', Operands = []\<rparr>] = Some 0 \<and>
   stack (NewInterpreter intPrims) = [NewState intPrims] \<and>
   stack (snd (Execute intPrims (NewInterpreter intPrims)
             [\<lparr>Name = ''q'', Operands = []\<rparr>,
              \<lparr>Name = ''w'', Operands = [OFloat (5::int)]\<rparr>,
              \<lparr>Name = ''Q'', Operands = []\<rparr>,
              \<lparr>Name = ''Q'', Operands = []\<rparr>,
              \<lparr>Name = ''Q'', Operands = []\<rparr>])) = [NewState intPrims]"
proof -
  let ?q = "\<lparr>Name = ''q'', Operands = []\<rparr> :: int Operator"
  let ?Q = "\<lparr>Name = ''Q'', Operands = []\<rparr> :: int Operator"
  let ?w = "\<lparr>Name = ''w'', Operands = [OFloat (5::int)]\<rparr>"
  let ?cm = "\<lparr>Name = ''cm'', Operands = [OFloat (2::int), OFloat 0, OFloat 0, OFloat 2, OFloat 0, OFloat 0]\<rparr>"
  have n1: "nesting 0 [?q, ?cm, ?q, ?w, ?Q, ?Q] = Some 0" by simp
  have n2: "clampedNesting 0 [?q, ?w, ?Q, ?Q, ?Q] = Some 0" by simp
  have s: "stack (NewInterpreter intPrims) = [NewState intPrims]"
    by (simp add: NewInterpreter_def NewStateStack_def)
  from q_Q_restores_state [of "[?q, ?cm, ?q, ?w, ?Q, ?Q]" "NewInterpreter intPrims" intPrims
      "NewState intPrims" ?q] n1 s
  have r1: "stack (snd (Execute intPrims (NewInterpreter intPrims) [?q, ?cm, ?q, ?w, ?Q, ?Q]))
            = stack (NewInterpreter intPrims)" by simp
  from q_Q_restores_state [of "[?q, ?w, ?Q, ?Q, ?Q]" "NewInterpreter intPrims" intPrims
      "NewState intPrims" ?q] n2 s
  have r2: "stack (snd (Execute intPrims (NewInterpreter intPrims) [?q, ?w, ?Q, ?Q, ?Q]))
            = [NewState intPrims]" by simp
  from n1 n2 s r1 r2 show ?thesis by simp
qed

subsection \<open>Operators of the interpreter\<close>

text \<open>The current state after an operator other than \<open>q\<close> and \<open>Q\<close> is the state its case
  computes from the current state.\<close>

lemma Current_executeOp_other:
  "Name op \<noteq> ''q'' \<Longrightarrow> Name op \<noteq> ''Q'' \<Longrightarrow>
   Current P (stack (snd (executeOp P i op))) =
     fst (stateOp P i (Name op) (Operands op) (Current P (stack i)) (path i))"
  by (simp add: executeOp_def Let_def Current_def Current_states_def split: prod.splits)

lemma stateOp_unknown:
  "name \<notin> set knownOperators \<Longrightarrow> stateOp P i name ops state pth = (state, pth, [])"
  unfolding stateOp_def knownOperators_def by simp

lemma executeOp_unknown:
  assumes "name \<notin> set knownOperators"
  shows "executeOp P i \<lparr>Name = name, Operands = ops\<rparr> =
           (None, i\<lparr>stack := Current_states P (stack i)\<rparr>)"
proof -
  have "name \<noteq> ''q''" "name \<noteq> ''Q''" using assms by (auto simp: knownOperators_def)
  then show ?thesis
    using Current_states_nonempty [of P "stack i"]
    by (simp add: executeOp_def Let_def stateOp_unknown [OF assms])
qed

lemma ParseContentStream_loop_operands:
  "\<forall>t \<in> set args. \<not> isOperator t \<Longrightarrow> isOperator tok \<Longrightarrow>
   ParseContentStream_loop f (args @ tok # rest) ops operands =
     ParseContentStream_loop f rest (ops @ [\<lparr>Name = tok, Operands = operands @ map f args\<rparr>]) []"
  by (induction args arbitrary: operands) simp_all

text \<open>Claim C9. An operator whose name has no case in \<open>executeOp\<close> returns no error and leaves
  the current graphics state, the current path and the callback log as they are; the
  interpreter itself is unchanged (its stack always holds a state), and \<open>Execute\<close> gives the
  result it gives without that operator, so the remaining operators run as usual. The parser
  hands every operator, recognised or not, exactly the operand tokens read since the previous
  operator: the operand list is empty again after each operator.\<close>

theorem unknown_operator_skipped:
  "name \<notin> set knownOperators \<Longrightarrow>
   fst (executeOp P i \<lparr>Name = name, Operands = xs\<rparr>) = None \<and>
   Current P (stack (snd (executeOp P i \<lparr>Name = name, Operands = xs\<rparr>))) = Current P (stack i) \<and>
   path (snd (executeOp P i \<lparr>Name = name, Operands = xs\<rparr>)) = path i \<and>
   events (snd (executeOp P i \<lparr>Name = name, Operands = xs\<rparr>)) = events i \<and>
   (stack i \<noteq> [] \<longrightarrow> snd (executeOp P i \<lparr>Name = name, Operands = xs\<rparr>) = i) \<and>
   (stack i \<noteq> [] \<longrightarrow>
      Execute P i (ops1 @ \<lparr>Name = name, Operands = xs\<rparr> # ops2) = Execute P i (ops1 @ ops2)) \<and>
   ((\<forall>t \<in> set args. \<not> isOperator t) \<longrightarrow> isOperator tok \<longrightarrow>
      ParseContentStream_loop f (args @ tok # rest) ops [] =
        ParseContentStream_loop f rest (ops @ [\<lparr>Name = tok, Operands = map f args\<rparr>]) [])"
proof -
  assume u: "name \<notin> set knownOperators"
  let ?u = "\<lparr>Name = name, Operands = xs\<rparr>"
  have e: "executeOp P i ?u = (None, i\<lparr>stack := Current_states P (stack i)\<rparr>)"
    by (rule executeOp_unknown [OF u])
  have skip: "snd (executeOp P j ?u) = j" if "stack j \<noteq> []" for j
    using executeOp_unknown [OF u, of P j xs] that by (simp add: Current_states_id)
  have ex: "Execute P i (ops1 @ ?u # ops2) = Execute P i (ops1 @ ops2)" if "stack i \<noteq> []"
  proof -
    have "stack (snd (Execute P i ops1)) \<noteq> []" by (rule Execute_stack_nonempty [OF that])
    then have "snd (executeOp P (snd (Execute P i ops1)) ?u) = snd (Execute P i ops1)" by (rule skip)
    then have "snd (Execute P i (ops1 @ ?u # ops2)) = snd (Execute P i (ops1 @ ops2))"
      by (simp add: Execute_append Execute_Cons)
    then show ?thesis by (simp add: Execute_def)
  qed
  have p: "(\<forall>t \<in> set args. \<not> isOperator t) \<longrightarrow> isOperator tok \<longrightarrow>
      ParseContentStream_loop f (args @ tok # rest) ops [] =
        ParseContentStream_loop f rest (ops @ [\<lparr>Name = tok, Operands = map f args\<rparr>]) []"
    using ParseContentStream_loop_operands [of args tok f rest ops "[]"] by simp
  show ?thesis
    using e skip [of i] ex p by (simp add: Current_Current_states)
qed

text \<open>The operator \<open>xyz\<close> between two recognised operators, and the tokens \<open>1 0 xyz 5 w\<close>.\<close>

theorem unknown_operator_skipped_witness:
  "''xyz'' \<notin> set knownOperators \<and>
   stack (NewInterpreter intPrims) \<noteq> [] \<and>
   Execute intPrims (NewInterpreter intPrims)
     ([\<lparr>Name = ''q'', Operands = []\<rparr>] @ \<lparr>Name = ''xyz'', Operands = [OFloat 1, OFloat 0]\<rparr> #
      [\<lparr>Name = ''w'', Operands = [OFloat 5]\<rparr>]) =
   Execute intPrims (NewInterpreter intPrims)
     ([\<lparr>Name = ''q'', Operands = []\<rparr>] @ [\<lparr>Name = ''w'', Operands = [OFloat 5]\<rparr>]) \<and>
   \<not> isOperator ''1'' \<and> \<not> isOperator ''0'' \<and> isOperator ''xyz'' \<and>
   ParseContentStream_loop (\<lambda>t. OStr t :: int operand) ([''1'', ''0''] @ ''xyz'' # [''5'', ''w'']) [] [] =
     [\<lparr>Name = ''xyz'', Operands = [OStr ''1'', OStr ''0'']\<rparr>, \<lparr>Name = ''w'', Operands = [OStr ''5'']\<rparr>]"
proof -
  have u: "''xyz'' \<notin> set knownOperators" by (simp add: knownOperators_def)
  have s: "stack (NewInterpreter intPrims) \<noteq> []"
    by (simp add: NewInterpreter_def NewStateStack_def)
  have a: "\<forall>t \<in> set [''1'', ''0'']. \<not> isOperator t" by (simp add: isOperator_def)
  have o: "isOperator ''xyz''" by (simp add: isOperator_def)
  have r: "ParseContentStream_loop (\<lambda>t. OStr t :: int operand) [''5'', ''w'']
             ([] @ [\<lparr>Name = ''xyz'', Operands = map (\<lambda>t. OStr t) [''1'', ''0'']\<rparr>]) [] =
           [\<lparr>Name = ''xyz'', Operands = [OStr ''1'', OStr ''0'']\<rparr>, \<lparr>Name = ''w'', Operands = [OStr ''5'']\<rparr>]"
    by (simp add: isOperator_def)
  from unknown_operator_skipped [OF u, of intPrims "NewInterpreter intPrims" "[OFloat 1, OFloat 0]"
      "[\<lparr>Name = ''q'', Operands = []\<rparr>]" "[\<lparr>Name = ''w'', Operands = [OFloat 5]\<rparr>]"
      "[''1'', ''0'']" "''xyz''" "\<lambda>t. OStr t" "[''5'', ''w'']" "[]"] u s a o r
  show ?thesis by simp
qed
subsection \<open>Matrix composition\<close>

text \<open>In exact arithmetic \<open>Multiply m other\<close> is the matrix product \<open>m \<times> other\<close> of the row-vector
  convention: it maps a point as \<open>m\<close> does first and \<open>other\<close> after it.\<close>

lemma Multiply_row_vector_product:
  fixes m other :: "'a::comm_ring_1 Matrix"
  shows "Transform (Multiply m other) x y = (case Transform m x y of (x1, y1) \<Rightarrow> Transform other x1 y1)"
  by (cases m; cases other) (simp add: algebra_simps)

text \<open>What the case \<open>cm\<close> computes: the old matrix times the new one.\<close>

lemma cm_sets_CTM:
  "length xs \<ge> 6 \<Longrightarrow>
   CTM (Current P (stack (snd (executeOp P i \<lparr>Name = ''cm'', Operands = xs\<rparr>)))) =
     Multiply (CTM (Current P (stack i)))
       (Matrix (toFloat P (xs ! 0)) (toFloat P (xs ! 1)) (toFloat P (xs ! 2))
               (toFloat P (xs ! 3)) (toFloat P (xs ! 4)) (toFloat P (xs ! 5)))"
  by (simp add: Current_executeOp_other stateOp_def)

text \<open>Claim C1, at the content stream \<open>2 0 0 2 0 0 cm 1 0 0 1 1 0 cm\<close> run on a new interpreter:
  the interpreter ends with the matrix \<open>[2 0 0 2 1 0]\<close>, the product old \<open>\<times>\<close> new, whereas the
  rule of the claim, new \<open>\<times>\<close> old for each operator in turn, gives \<open>[2 0 0 2 2 0]\<close>.\<close>

theorem cm_postmultiplies_at_scale_then_translate:
  "CTM (Current intPrims (stack (snd (Execute intPrims (NewInterpreter intPrims)
      [\<lparr>Name = ''cm'', Operands = [OFloat 2, OFloat 0, OFloat 0, OFloat 2, OFloat 0, OFloat 0]\<rparr>,
       \<lparr>Name = ''cm'', Operands = [OFloat 1, OFloat 0, OFloat 0, OFloat 1, OFloat 1, OFloat 0]\<rparr>]))))
     = Matrix 2 0 0 2 1 0 \<and>
   Multiply (Matrix 1 0 0 1 1 0) (Multiply (Matrix 2 0 0 2 0 0) Identity) = Matrix 2 0 0 2 2 (0::int)"
  by (simp add: Execute_def executeOp_def stateOp_def NewInterpreter_def NewStateStack_def
      NewState_def Current_def Current_states_def Identity_def Let_def)

subsection \<open>Text positioning\<close>

text \<open>Claim C8. \<open>Td tx ty\<close> sets the line matrix to \<open>Translate(tx,ty).Multiply(LineMatrix)\<close>,
  the translation times the old line matrix, and the text matrix to the new line matrix.
  \<open>TD\<close> does the same after setting the leading to \<open>-ty\<close>; \<open>T*\<close>, \<open>'\<close> and \<open>"\<close> do the same
  with the translation \<open>(0, -Leading)\<close>.\<close>

theorem Td_premultiplies_translation:
  "(length xs \<ge> 2 \<longrightarrow>
      LineMatrix (TextState (Current P (stack (snd (executeOp P i \<lparr>Name = ''Td'', Operands = xs\<rparr>))))) =
        Multiply (Translate (toFloat P (xs ! 0)) (toFloat P (xs ! 1)))
          (LineMatrix (TextState (Current P (stack i)))) \<and>
      TextMatrix (TextState (Current P (stack (snd (executeOp P i \<lparr>Name = ''Td'', Operands = xs\<rparr>))))) =
        LineMatrix (TextState (Current P (stack (snd (executeOp P i \<lparr>Name = ''Td'', Operands = xs\<rparr>)))))) \<and>
   (length xs \<ge> 2 \<longrightarrow>
      LineMatrix (TextState (Current P (stack (snd (executeOp P i \<lparr>Name = ''TD'', Operands = xs\<rparr>))))) =
        Multiply (Translate (toFloat P (xs ! 0)) (toFloat P (xs ! 1)))
          (LineMatrix (TextState (Current P (stack i)))) \<and>
      TextMatrix (TextState (Current P (stack (snd (executeOp P i \<lparr>Name = ''TD'', Operands = xs\<rparr>))))) =
        LineMatrix (TextState (Current P (stack (snd (executeOp P i \<lparr>Name = ''TD'', Operands = xs\<rparr>))))) \<and>
      Leading (TextState (Current P (stack (snd (executeOp P i \<lparr>Name = ''TD'', Operands = xs\<rparr>))))) =
        - toFloat P (xs ! 1)) \<and>
   (LineMatrix (TextState (Current P (stack (snd (executeOp P i \<lparr>Name = ''T*'', Operands = xs\<rparr>))))) =
        Multiply (Translate 0 (- Leading (TextState (Current P (stack i)))))
          (LineMatrix (TextState (Current P (stack i)))) \<and>
      TextMatrix (TextState (Current P (stack (snd (executeOp P i \<lparr>Name = ''T*'', Operands = xs\<rparr>))))) =
        LineMatrix (TextState (Current P (stack (snd (executeOp P i \<lparr>Name = ''T*'', Operands = xs\<rparr>)))))) \<and>
   (LineMatrix (TextState (Current P (stack (snd (executeOp P i \<lparr>Name = [CHR 0x27], Operands = xs\<rparr>))))) =
        Multiply (Translate 0 (- Leading (TextState (Current P (stack i)))))
          (LineMatrix (TextState (Current P (stack i)))) \<and>
      TextMatrix (TextState (Current P (stack (snd (executeOp P i \<lparr>Name = [CHR 0x27], Operands = xs\<rparr>))))) =
        LineMatrix (TextState (Current P (stack (snd (executeOp P i \<lparr>Name = [CHR 0x27], Operands = xs\<rparr>)))))) \<and>
   (length xs \<ge> 3 \<longrightarrow>
      LineMatrix (TextState (Current P (stack (snd (executeOp P i \<lparr>Name = [CHR 0x22], Operands = xs\<rparr>))))) =
        Multiply (Translate 0 (- Leading (TextState (Current P (stack i)))))
          (LineMatrix (TextState (Current P (stack i)))) \<and>
      TextMatrix (TextState (Current P (stack (snd (executeOp P i \<lparr>Name = [CHR 0x22], Operands = xs\<rparr>))))) =
        LineMatrix (TextState (Current P (stack (snd (executeOp P i \<lparr>Name = [CHR 0x22], Operands = xs\<rparr>))))))"
  by (simp add: Current_executeOp_other stateOp_def Let_def)

text \<open>\<open>3 4 Td\<close> after the text matrix was set to a scaling by 2: the line matrix becomes
  \<open>[2 0 0 2 6 8]\<close>, the translation applied before the scaling.\<close>

theorem Td_premultiplies_translation_witness:
  "length [OFloat 3, OFloat (4::int)] \<ge> 2 \<and>
   LineMatrix (TextState (Current intPrims (stack (snd (executeOp intPrims
      (snd (executeOp intPrims (NewInterpreter intPrims)
         \<lparr>Name = ''Tm'', Operands = [OFloat 2, OFloat 0, OFloat 0, OFloat 2, OFloat 0, OFloat 0]\<rparr>))
      \<lparr>Name = ''Td'', Operands = [OFloat 3, OFloat 4]\<rparr>))))) = Matrix 2 0 0 2 6 8"
proof -
  let ?i = "snd (executeOp intPrims (NewInterpreter intPrims)
         \<lparr>Name = ''Tm'', Operands = [OFloat 2, OFloat 0, OFloat 0, OFloat 2, OFloat 0, OFloat (0::int)]\<rparr>)"
  have l: "LineMatrix (TextState (Current intPrims (stack ?i))) = Matrix 2 0 0 2 0 0"
    by (simp add: Current_executeOp_other stateOp_def Let_def)
  from Td_premultiplies_translation [of "[OFloat 3, OFloat 4]" intPrims ?i] l
  show ?thesis by (simp add: Translate_def)
qed

subsection \<open>PNG predictor round trip\<close>
















subsection \<open>cmap format 4\<close>

lemma word16_of_int_mod: "(word_of_int (x mod 65536) :: 16 word) = word_of_int x"
proof -
  have "(word_of_int (x mod 2 ^ LENGTH(16)) :: 16 word) = word_of_int x"
    by (simp only: word_of_int_eq_iff take_bit_eq_mod mod_mod_trivial)
  then show ?thesis by simp
qed

lemma uint_word16_of_int_mod: "uint (word_of_int (x mod 65536) :: 16 word) = x mod 65536"
proof -
  have "uint (word_of_int x :: 16 word) = x mod 2 ^ LENGTH(16)"
    by (simp only: uint_word_of_int take_bit_eq_mod)
  then show ?thesis by (simp add: word16_of_int_mod)
qed

lemma format4_guarded_range: "0 \<le> format4_guarded c code i \<and> format4_guarded c code i < 65536"
  by (simp add: format4_guarded_def)

text \<open>What the code returns once the search has stopped at segment \<open>i\<close>.\<close>

lemma found_branch:
  assumes "StartCode c ! i \<le> code"
  shows "(if IDRangeOffset c ! i = 0 then Ok (word_of_int (uint code + sint (IDDelta c ! i)))
          else (let idx = uint (IDRangeOffset c ! i) div 2 + uint (code - StartCode c ! i)
                            - (uint (SegCount c) - int i)
                in if idx \<ge> 0 \<and> idx < int (length (GlyphIDArray c)) then
                     (if GlyphIDArray c ! nat idx \<noteq> 0 then
                        Ok (word_of_int (uint (GlyphIDArray c ! nat idx) + sint (IDDelta c ! i)))
                      else Ok 0)
                   else Ok 0))
         = (Ok (word_of_int (format4_guarded c code i)) :: 16 word result)"
proof -
  have sub: "uint (code - StartCode c ! i) = uint code - uint (StartCode c ! i)"
    using assms by (simp add: uint_minus_simple_alt)
  show ?thesis
    by (simp add: format4_guarded_def glyphIndex_spec_def sub Let_def word16_of_int_mod)
qed

lemma segments_ordered:
  assumes "segmentsInOrder c" and "i < j" and "j < unat (SegCount c)"
  shows "EndCode c ! i < StartCode c ! j" and "EndCode c ! i < EndCode c ! j"
proof -
  show 1: "EndCode c ! i < StartCode c ! j" using assms by (simp add: segmentsInOrder_def)
  have "StartCode c ! j \<le> EndCode c ! j" using assms by (simp add: segmentsInOrder_def)
  with 1 show "EndCode c ! i < EndCode c ! j" by simp
qed

lemma GetGlyphID_loop_found:
  "segmentsInOrder c \<Longrightarrow> inSegment c code i \<Longrightarrow>
         0 \<le> lo \<Longrightarrow> lo \<le> int i \<Longrightarrow> int i \<le> hi \<Longrightarrow> hi < int (unat (SegCount c)) \<Longrightarrow>
         GetGlyphID_loop c code lo hi = Ok (word_of_int (format4_guarded c code i))"
proof (induction c code lo hi rule: GetGlyphID_loop.induct)
  case (1 c code lo hi)
  note wf = "1.prems"(1)
  define n where "n = unat (SegCount c)"
  define mid where "mid = (lo + hi) div 2"
  have lens: "length (EndCode c) = n" "length (StartCode c) = n" "length (IDDelta c) = n"
    "length (IDRangeOffset c) = n"
    using wf by (simp_all add: segmentsInOrder_def n_def)
  have i: "i < n" "StartCode c ! i \<le> code" "code \<le> EndCode c ! i"
    using "1.prems"(2) by (simp_all add: inSegment_def n_def)
  have lohi: "lo \<le> hi" using "1.prems" by simp
  have m: "lo \<le> mid" "mid \<le> hi" using lohi by (simp_all add: mid_def)
  then have m0: "0 \<le> mid" "mid < int n" using "1.prems" by (simp_all add: n_def)
  then have mn: "nat mid < n" by simp
  show ?case
  proof (cases "code > EndCode c ! nat mid")
    case True
    have "nat mid < i"
    proof (rule ccontr)
      assume "\<not> nat mid < i"
      then consider "nat mid = i" | "i < nat mid" by linarith
      then show False
      proof cases
        case 1
        with True i show ?thesis by simp
      next
        case 2
        from segments_ordered(2) [OF wf 2] mn have "EndCode c ! i < EndCode c ! nat mid"
          by (simp add: n_def)
        with True i show ?thesis by simp
      qed
    qed
    then have "mid + 1 \<le> int i" using m0 by linarith
    then have "GetGlyphID_loop c code (mid + 1) hi = Ok (word_of_int (format4_guarded c code i))"
      using "1.IH"(1) [of mid] lohi m0 True lens "1.prems" wf
      by (simp add: mid_def n_def)
    moreover have "GetGlyphID_loop c code lo hi = GetGlyphID_loop c code (mid + 1) hi"
      using lohi m0 True lens
      by (subst GetGlyphID_loop.simps) (simp add: Let_def mid_def [symmetric])
    ultimately show ?thesis by simp
  next
    case notgt: False
    show ?thesis
    proof (cases "code < StartCode c ! nat mid")
      case True
      have "i < nat mid"
      proof (rule ccontr)
        assume "\<not> i < nat mid"
        then consider "nat mid = i" | "nat mid < i" by linarith
        then show False
        proof cases
          case 1
          with True i show ?thesis by simp
        next
          case 2
          from segments_ordered(1) [OF wf 2] i have "EndCode c ! nat mid < StartCode c ! i"
            by (simp add: n_def)
          with notgt i show ?thesis by simp
        qed
      qed
      then have "int i \<le> mid - 1" using m0 by linarith
      then have "GetGlyphID_loop c code lo (mid - 1) = Ok (word_of_int (format4_guarded c code i))"
        using "1.IH"(2) [of mid] lohi m0 m notgt True lens "1.prems" wf
        by (simp add: mid_def n_def)
      moreover have "GetGlyphID_loop c code lo hi = GetGlyphID_loop c code lo (mid - 1)"
        using lohi m0 notgt True lens
        by (subst GetGlyphID_loop.simps) (simp add: Let_def mid_def [symmetric])
      ultimately show ?thesis by simp
    next
      case False
      have eq: "nat mid = i"
      proof (rule ccontr)
        assume "nat mid \<noteq> i"
        then consider "nat mid < i" | "i < nat mid" by linarith
        then show False
        proof cases
          case 1
          from segments_ordered(1) [OF wf 1] i have "EndCode c ! nat mid < StartCode c ! i"
            by (simp add: n_def)
          with notgt i show ?thesis by simp
        next
          case 2
          from segments_ordered(1) [OF wf 2] mn have "EndCode c ! i < StartCode c ! nat mid"
            by (simp add: n_def)
          with False i show ?thesis by simp
        qed
      qed
      then have midi: "mid = int i" using m0 by simp
      have "GetGlyphID_loop c code lo hi =
            (if IDRangeOffset c ! i = 0 then Ok (word_of_int (uint code + sint (IDDelta c ! i)))
             else (let idx = uint (IDRangeOffset c ! i) div 2 + uint (code - StartCode c ! i)
                            - (uint (SegCount c) - int i)
                in if idx \<ge> 0 \<and> idx < int (length (GlyphIDArray c)) then
                     (if GlyphIDArray c ! nat idx \<noteq> 0 then
                        Ok (word_of_int (uint (GlyphIDArray c ! nat idx) + sint (IDDelta c ! i)))
                      else Ok 0)
                   else Ok 0))"
        apply (subst GetGlyphID_loop.simps)
        apply (simp only: Let_def mid_def [symmetric])
        apply (simp only: midi nat_int)
        apply (insert lohi i lens)
        apply (simp add: not_less [symmetric] Let_def)
        done
      then show ?thesis using found_branch [OF i(2)] by simp
    qed
  qed
qed
lemma GetGlyphID_loop_not_found:
  "segmentsInOrder c \<Longrightarrow> \<forall>i. \<not> inSegment c code i \<Longrightarrow>
   0 \<le> lo \<Longrightarrow> hi < int (unat (SegCount c)) \<Longrightarrow> GetGlyphID_loop c code lo hi = Ok 0"
proof (induction c code lo hi rule: GetGlyphID_loop.induct)
  case (1 c code lo hi)
  define n where "n = unat (SegCount c)"
  define mid where "mid = (lo + hi) div 2"
  have lens: "length (EndCode c) = n" "length (StartCode c) = n"
    using "1.prems"(1) by (simp_all add: segmentsInOrder_def n_def)
  show ?case
  proof (cases "lo \<le> hi")
    case False
    then show ?thesis by (subst GetGlyphID_loop.simps) simp
  next
    case lohi: True
    have m: "lo \<le> mid" "mid \<le> hi" using lohi by (simp_all add: mid_def)
    then have m0: "0 \<le> mid" "mid < int n" using "1.prems" by (simp_all add: n_def)
    have "nat mid < n" using m0 by linarith
    then have "nat mid < unat (SegCount c)" unfolding n_def .
    then have out: "\<not> (StartCode c ! nat mid \<le> code \<and> code \<le> EndCode c ! nat mid)"
      using "1.prems"(2) by (auto simp: inSegment_def)
    show ?thesis
    proof (cases "code > EndCode c ! nat mid")
      case True
      have "GetGlyphID_loop c code (mid + 1) hi = Ok 0"
        using "1.IH"(1) [of mid] lohi m0 True lens "1.prems" by (simp add: mid_def n_def)
      moreover have "GetGlyphID_loop c code lo hi = GetGlyphID_loop c code (mid + 1) hi"
        using lohi m0 True lens
        by (subst GetGlyphID_loop.simps) (simp add: Let_def mid_def [symmetric])
      ultimately show ?thesis by simp
    next
      case notgt: False
      with out have lt: "code < StartCode c ! nat mid" by (auto simp: not_le not_less)
      have "GetGlyphID_loop c code lo (mid - 1) = Ok 0"
        using "1.IH"(2) [of mid] lohi m0 m notgt lt lens "1.prems" by (simp add: mid_def n_def)
      moreover have "GetGlyphID_loop c code lo hi = GetGlyphID_loop c code lo (mid - 1)"
        using lohi m0 notgt lt lens
        by (subst GetGlyphID_loop.simps) (simp add: Let_def mid_def [symmetric])
      ultimately show ?thesis by simp
    qed
  qed
qed

text \<open>Claim C7, as the code has it. For a format 4 subtable whose segments are in order and a
  character code of the Basic Multilingual Plane, the binary search stops at the segment that
  holds the code, and the glyph is: \<open>(code + idDelta) mod 65536\<close> when \<open>idRangeOffset\<close> of the
  segment is 0; otherwise the entry of \<open>glyphIdArray\<close> at
  \<open>idRangeOffset/2 + (code - startCode) - (segCount - segment)\<close> with \<open>idDelta\<close> added modulo
  65536, except that an index outside the array and an entry 0 give glyph 0. A code in no
  segment gives glyph 0.\<close>

theorem format4_lookup:
  assumes "segmentsInOrder c" and "r \<le> 0xFFFF"
  shows "(inSegment c (word_of_int r) i \<longrightarrow>
            (\<exists>g. GetGlyphID c r = Ok g \<and> uint g = format4_guarded c (word_of_int r) i)) \<and>
         ((\<forall>j. \<not> inSegment c (word_of_int r) j) \<longrightarrow> GetGlyphID c r = Ok 0)"
proof (intro conjI impI)
  assume seg: "inSegment c (word_of_int r) i"
  then have i: "i < unat (SegCount c)" by (simp add: inSegment_def)
  have hi: "uint (SegCount c) - 1 < int (unat (SegCount c))" by simp
  have "int i < int (unat (SegCount c))" using i by (simp only: of_nat_less_iff)
  then have "int i \<le> uint (SegCount c) - 1" by simp
  then have "GetGlyphID_loop c (word_of_int r) 0 (uint (SegCount c) - 1) =
        Ok (word_of_int (format4_guarded c (word_of_int r) i))"
    using hi by (intro GetGlyphID_loop_found [OF assms(1) seg]) simp_all
  then have g: "GetGlyphID c r = Ok (word_of_int (format4_guarded c (word_of_int r) i))"
    using assms(2) by (simp add: GetGlyphID_def)
  have "format4_guarded c (word_of_int r) i mod 65536 = format4_guarded c (word_of_int r) i"
    using format4_guarded_range [of c "word_of_int r" i] by simp
  then have "uint (word_of_int (format4_guarded c (word_of_int r) i) :: 16 word) =
        format4_guarded c (word_of_int r) i"
    using uint_word16_of_int_mod [of "format4_guarded c (word_of_int r) i"] by simp
  with g show "\<exists>g. GetGlyphID c r = Ok g \<and> uint g = format4_guarded c (word_of_int r) i" by blast
next
  assume none: "\<forall>j. \<not> inSegment c (word_of_int r) j"
  have "GetGlyphID_loop c (word_of_int r) 0 (uint (SegCount c) - 1) = Ok 0"
    by (rule GetGlyphID_loop_not_found [OF assms(1) none]) simp_all
  then show "GetGlyphID c r = Ok 0" using assms(2) by (simp add: GetGlyphID_def)
qed

text \<open>A subtable with the segments \<open>A..B\<close> (\<open>idDelta\<close> 5, glyphs from \<open>glyphIdArray = [0, 7]\<close>)
  and \<open>0xFFFF\<close>. The code \<open>B\<close> has the entry 7 and the glyph 12. The code \<open>A\<close> has the entry 0:
  the lookup returns glyph 0, where the rule of the claim as stated adds \<open>idDelta\<close> and gives 5.\<close>

theorem format4_lookup_witness:
  "segmentsInOrder \<lparr>SegCount = 2, EndCode = [66, 0xFFFF], StartCode = [65, 0xFFFF], IDDelta = [5, 1],
      IDRangeOffset = [4, 0], GlyphIDArray = [0, 7]\<rparr> \<and>
   (66::int) \<le> 0xFFFF \<and>
   inSegment \<lparr>SegCount = 2, EndCode = [66, 0xFFFF], StartCode = [65, 0xFFFF], IDDelta = [5, 1],
      IDRangeOffset = [4, 0], GlyphIDArray = [0, 7]\<rparr> (word_of_int 66) 0 \<and>
   (\<exists>g. GetGlyphID \<lparr>SegCount = 2, EndCode = [66, 0xFFFF], StartCode = [65, 0xFFFF], IDDelta = [5, 1],
      IDRangeOffset = [4, 0], GlyphIDArray = [0, 7]\<rparr> 66 = Ok g \<and> uint g = 12)"
proof -
  let ?c = "\<lparr>SegCount = 2, EndCode = [66, 0xFFFF], StartCode = [65, 0xFFFF], IDDelta = [5, 1],
      IDRangeOffset = [4, 0], GlyphIDArray = [0, 7]\<rparr>"
  have u: "unat (2::16 word) = 2" by simp
  have wf: "segmentsInOrder ?c"
    by (simp add: segmentsInOrder_def u) (auto simp: less_2_cases_iff)
  have r: "(66::int) \<le> 0xFFFF" by simp
  have s: "inSegment ?c (word_of_int 66) 0" by (simp add: inSegment_def)
  have v: "format4_guarded ?c (word_of_int 66) 0 = 12"
    by (simp add: format4_guarded_def glyphIndex_spec_def)
  from format4_lookup [OF wf r, of 0] wf r s v show ?thesis by simp
qed

theorem format4_missing_glyph_counterexample:
  "GetGlyphID \<lparr>SegCount = 2, EndCode = [66, 0xFFFF], StartCode = [65, 0xFFFF], IDDelta = [5, 1],
      IDRangeOffset = [4, 0], GlyphIDArray = [0, 7]\<rparr> 65 = Ok 0 \<and>
   format4_spec \<lparr>SegCount = 2, EndCode = [66, 0xFFFF], StartCode = [65, 0xFFFF], IDDelta = [5, 1],
      IDRangeOffset = [4, 0], GlyphIDArray = [0, 7]\<rparr> (word_of_int 65) 0 = 5"
  by (simp add: GetGlyphID_def GetGlyphID_loop.simps Let_def format4_spec_def glyphIndex_spec_def)

subsection \<open>Object resolution\<close>

text \<open>The cache holds objects of in-use entries only, and the cross-reference table is never
  changed by a lookup.\<close>

lemma reader_calls_preserve:
  "GetObject L r objNum res r' \<Longrightarrow> xref r' = xref r \<and> (cacheInUse r \<longrightarrow> cacheInUse r')"
  "getObjectAtOffset L r offset expected res r' \<Longrightarrow>
     xref r' = xref r \<and> (cacheInUse r \<longrightarrow> cacheInUse r')"
  "getObjectFromStream L r streamObjNum index targetObjNum res r' \<Longrightarrow>
     xref r' = xref r \<and> (cacheInUse r \<longrightarrow> cacheInUse r')"
  "Resolve L r obj res r' \<Longrightarrow> xref r' = xref r \<and> (cacheInUse r \<longrightarrow> cacheInUse r')"
  "filterNames L r items filters names r' \<Longrightarrow>
     xref r' = xref r \<and> (cacheInUse r \<longrightarrow> cacheInUse r')"
  "DecodeStream L r dict data bytes r' \<Longrightarrow>
     xref r' = xref r \<and> (cacheInUse r \<longrightarrow> cacheInUse r')"
proof (induction rule: GetObject_getObjectAtOffset_getObjectFromStream_Resolve_filterNames_DecodeStream.inducts)
  case (GetObject_stream r objNum entry L obj r')
  then show ?case by (auto simp: cacheInUse_def)
next
  case (GetObject_offset r objNum entry L obj r')
  then show ?case by (auto simp: cacheInUse_def)
next
  case (FromStream_found r streamObjNum targetObjNum L dict data r' decoded r'' objects obj index)
  then show ?case by (auto simp: cacheInUse_def)
next
  case (FromStream_missing r streamObjNum targetObjNum L dict data r' decoded r'' objects index)
  then show ?case by (auto simp: cacheInUse_def)
qed auto

lemma new_cache_in_use: "cache r = Map.empty \<Longrightarrow> cacheInUse r"
  by (simp add: cacheInUse_def)

lemma GetObject_free_only:
  assumes "cacheInUse r" and "Entries (xref r) n = Some e" and "\<not> InUse e"
  shows "GetObject L r n res r' \<longleftrightarrow> res = Inr NullObj \<and> r' = r"
proof
  have miss: "cache r n = None"
  proof (cases "cache r n")
    case (Some obj)
    with assms show ?thesis by (auto simp: cacheInUse_def)
  qed simp
  {
    assume "GetObject L r n res r'"
    then show "res = Inr NullObj \<and> r' = r"
      using miss assms(2,3) by cases auto
  next
    assume "res = Inr NullObj \<and> r' = r"
    then show "GetObject L r n res r'"
      using GetObject_free [OF miss assms(2,3), of L] by simp
  }
qed

text \<open>Claim C5. A call of \<open>Resolve\<close> on a reference to object \<open>n\<close> has exactly the results of
  \<open>GetObject(n)\<close>, for an in-use entry as for any other: the same object or error and the same
  reader afterwards (and no result where \<open>GetObject\<close> has none). In a reader whose cache holds
  objects of in-use entries only, as it does from \<open>NewReader\<close> on, \<open>GetObject\<close> of an object number
  whose entry is free returns the null object and no error, and so does \<open>Resolve\<close>.\<close>

theorem Resolve_is_GetObject:
  "(Resolve L r (ReferenceObj n g) res r' \<longleftrightarrow> GetObject L r n res r') \<and>
   (cacheInUse r \<longrightarrow> Entries (xref r) n = Some e \<longrightarrow> \<not> InUse e \<longrightarrow>
      (GetObject L r n res r' \<longleftrightarrow> res = Inr NullObj \<and> r' = r) \<and>
      (Resolve L r (ReferenceObj n g) res r' \<longleftrightarrow> res = Inr NullObj \<and> r' = r))"
proof -
  have 1: "Resolve L r (ReferenceObj n g) res r' \<longleftrightarrow> GetObject L r n res r'"
  proof
    assume "Resolve L r (ReferenceObj n g) res r'"
    then show "GetObject L r n res r'" by cases auto
  next
    assume "GetObject L r n res r'"
    then show "Resolve L r (ReferenceObj n g) res r'" by (rule Resolve_reference)
  qed
  show ?thesis using 1 GetObject_free_only [of r n e L res r'] by simp
qed
text \<open>In the example document the free object 0 resolves to null and the in-use object 1 to the
  integer 42, which is stored in the cache.\<close>

theorem Resolve_is_GetObject_witness:
  "cacheInUse exampleReader \<and>
   Entries (xref exampleReader) 0 =
     Some \<lparr>Offset = 0, Generation = 65535, InUse = False, ObjectStreamNum = 0, IndexInStream = 0\<rparr> \<and>
   \<not> InUse \<lparr>Offset = 0, Generation = 65535, InUse = False, ObjectStreamNum = 0, IndexInStream = 0\<rparr> \<and>
   GetObject exampleParsers exampleReader 0 (Inr NullObj) exampleReader \<and>
   Resolve exampleParsers exampleReader (ReferenceObj 0 0) (Inr NullObj) exampleReader \<and>
   GetObject exampleParsers exampleReader 1 (Inr (IntegerObj 42))
     (exampleReader\<lparr>cache := (cache exampleReader)(1 \<mapsto> IntegerObj 42)\<rparr>) \<and>
   Resolve exampleParsers exampleReader (ReferenceObj 1 0) (Inr (IntegerObj 42))
     (exampleReader\<lparr>cache := (cache exampleReader)(1 \<mapsto> IntegerObj 42)\<rparr>)"
proof -
  let ?free = "\<lparr>Offset = 0, Generation = 65535, InUse = False, ObjectStreamNum = 0, IndexInStream = 0\<rparr>"
  let ?used = "\<lparr>Offset = 10, Generation = 0, InUse = True, ObjectStreamNum = 0, IndexInStream = 0\<rparr>"
  have c: "cacheInUse exampleReader" by (simp add: cacheInUse_def exampleReader_def)
  have e0: "Entries (xref exampleReader) 0 = Some ?free" by (simp add: exampleReader_def)
  have f: "\<not> InUse ?free" by simp
  have e1: "Entries (xref exampleReader) 1 = Some ?used" by (simp add: exampleReader_def)
  have m1: "cache exampleReader 1 = None" by (simp add: exampleReader_def)
  have "getObjectAtOffset exampleParsers exampleReader 10 1 (Inr (IntegerObj 42)) exampleReader"
    by (rule AtOffset_other) (simp_all add: exampleParsers_def)
  then have "getObjectAtOffset exampleParsers exampleReader (Offset ?used) 1 (Inr (IntegerObj 42))
      exampleReader" by simp
  from GetObject_offset [OF m1 e1 _ _ this]
  have g1: "GetObject exampleParsers exampleReader 1 (Inr (IntegerObj 42))
     (exampleReader\<lparr>cache := (cache exampleReader)(1 \<mapsto> IntegerObj 42)\<rparr>)" by simp
  from Resolve_is_GetObject [of exampleParsers exampleReader 0 0 "Inr NullObj" exampleReader ?free]
    c e0 f
  have r0: "GetObject exampleParsers exampleReader 0 (Inr NullObj) exampleReader"
    and r0': "Resolve exampleParsers exampleReader (ReferenceObj 0 0) (Inr NullObj) exampleReader"
    by simp_all
  from Resolve_is_GetObject [of exampleParsers exampleReader 1 0 "Inr (IntegerObj 42)"
      "exampleReader\<lparr>cache := (cache exampleReader)(1 \<mapsto> IntegerObj 42)\<rparr>" ?free] g1
  have r1: "Resolve exampleParsers exampleReader (ReferenceObj 1 0) (Inr (IntegerObj 42))
     (exampleReader\<lparr>cache := (cache exampleReader)(1 \<mapsto> IntegerObj 42)\<rparr>)" by simp
  from c e0 f r0 r0' g1 r1 show ?thesis by simp
qed

subsection \<open>LZWDecode\<close>

lemma Resolve_name: "Resolve L r (NameObj f) res r' \<longleftrightarrow> res = Inr (NameObj f) \<and> r' = r"
proof
  assume "Resolve L r (NameObj f) res r'"
  then show "res = Inr (NameObj f) \<and> r' = r" by cases auto
next
  assume "res = Inr (NameObj f) \<and> r' = r"
  then show "Resolve L r (NameObj f) res r'" using Resolve_other [of "NameObj f" L r] by simp
qed

lemma DecodeStream_single_filter:
  "DecodeStream L r [(''Filter'', NameObj f)] data res r' \<longleftrightarrow>
     res = applyFilters L [(''Filter'', NameObj f)] [f] data \<and> r' = r"
proof
  assume "DecodeStream L r [(''Filter'', NameObj f)] data res r'"
  then show "res = applyFilters L [(''Filter'', NameObj f)] [f] data \<and> r' = r"
  proof cases
    case DecodeStream_no_filter
    then show ?thesis by (simp add: Get_def)
  next
    case (DecodeStream_name flt f')
    then show ?thesis by (auto simp: Get_def Resolve_name simp del: applyFilters.simps)
  next
    case (DecodeStream_array flt items r1 names)
    then show ?thesis by (auto simp: Get_def Resolve_name simp del: applyFilters.simps)
  next
    case (DecodeStream_other flt res1)
    then show ?thesis by (auto simp: Get_def Resolve_name simp del: applyFilters.simps)
  qed
next
  assume a: "res = applyFilters L [(''Filter'', NameObj f)] [f] data \<and> r' = r"
  have "Get [(''Filter'', NameObj f)] ''Filter'' = Some (NameObj f)" by (simp add: Get_def)
  moreover have "Resolve L r (NameObj f) (Inr (NameObj f)) r" by (simp add: Resolve_name)
  ultimately have "DecodeStream L r [(''Filter'', NameObj f)] data
      (applyFilters L [(''Filter'', NameObj f)] [f] data) r"
    by (rule DecodeStream_name)
  with a show "DecodeStream L r [(''Filter'', NameObj f)] data res r'" by simp
qed

text \<open>Claim C3, on the code. \<open>Reader.DecodeStream\<close> of a stream whose filter is LZWDecode returns,
  for every payload, the error of \<open>decodeLZW\<close> ("LZW decoding not fully implemented") wrapped as a
  filter failure, and nothing else. The decoder of package stream decodes the same bytes: the
  payload \<open>80 0B 60 50 22 0C 0C 85 01\<close> gives \<open>-----A---B\<close>. That decoder, too, returns an error
  for some byte sequences: \<open>FF FF\<close> starts with the unassigned code 511.\<close>

theorem LZWDecode_rejected_by_reader:
  "(DecodeStream L r [(''Filter'', NameObj ''LZWDecode'')] data res r' \<longleftrightarrow>
      res = Inl (FilterFailed ''LZWDecode'' LZWNotImplemented) \<and> r' = r) \<and>
   DecodeLZW [0x80, 0x0B, 0x60, 0x50, 0x22, 0x0C, 0x0C, 0x85, 0x01] 1 =
     Some (Ok [45, 45, 45, 45, 45, 65, 45, 45, 45, 66]) \<and>
   DecodeLZW [0xFF, 0xFF] 1 = Some (Err (InvalidLZWCode 511))"
proof -
  have 1: "DecodeLZW [0x80, 0x0B, 0x60, 0x50, 0x22, 0x0C, 0x0C, 0x85, 0x01] 1 =
     Some (Ok [45, 45, 45, 45, 45, 65, 45, 45, 45, 66])" by code_simp
  have 2: "DecodeLZW [0xFF, 0xFF] 1 = Some (Err (InvalidLZWCode 511))" by code_simp
  show ?thesis
    using 1 2 by (simp add: DecodeStream_single_filter decodeLZW_def)
qed

theorem LZWDecode_rejected_by_reader_witness:
  "DecodeStream exampleParsers exampleReader [(''Filter'', NameObj ''LZWDecode'')]
     [0x80, 0x0B, 0x60, 0x50, 0x22, 0x0C, 0x0C, 0x85, 0x01]
     (Inl (FilterFailed ''LZWDecode'' LZWNotImplemented)) exampleReader"
  using LZWDecode_rejected_by_reader [of exampleParsers exampleReader
      "[0x80, 0x0B, 0x60, 0x50, 0x22, 0x0C, 0x0C, 0x85, 0x01]"
      "Inl (FilterFailed ''LZWDecode'' LZWNotImplemented)" exampleReader]
  by simp

subsection \<open>The recursive traversals\<close>












lemma traversals_on_examples:
  "loadPrevXref chainPrev \<lparr>Entries = Map.empty, Trailer = []\<rparr> 100 =
     Some (None, \<lparr>Entries = Map.empty, Trailer = []\<rparr>)"
  "loadPrevXref chainPrev \<lparr>Entries = Map.empty, Trailer = []\<rparr> 7 =
     Some (Some (ExternalError ''no xref''), \<lparr>Entries = Map.empty, Trailer = []\<rparr>)"
  "findPage treePages pagesRoot 0 0 = Some (Inr pageLeaf)"
  "findPage treePages pagesRoot 1 0 = Some (Inl (PageNumberNotFound 1))"
  "GlyphToPath accentedGlyphs 1 = Some (Inr (MoveTo 1 2 NewPath))"
proof -
  show "loadPrevXref chainPrev \<lparr>Entries = Map.empty, Trailer = []\<rparr> 100 =
     Some (None, \<lparr>Entries = Map.empty, Trailer = []\<rparr>)"
    by (simp add: loadPrevXref.simps chainPrev_def GetInt_def Get_def)
  show "loadPrevXref chainPrev \<lparr>Entries = Map.empty, Trailer = []\<rparr> 7 =
     Some (Some (ExternalError ''no xref''), \<lparr>Entries = Map.empty, Trailer = []\<rparr>)"
    by (simp add: loadPrevXref.simps chainPrev_def)
  show "findPage treePages pagesRoot 0 0 = Some (Inr pageLeaf)"
    by (simp add: findPage_def findPage_rec.simps treePages_def pagesRoot_def pagesInner_def
        pageLeaf_def arrayOf_def GetName_def GetInt_def Get_def)
  show "findPage treePages pagesRoot 1 0 = Some (Inl (PageNumberNotFound 1))"
    by (simp add: findPage_def findPage_rec.simps treePages_def pagesRoot_def pagesInner_def
        pageLeaf_def arrayOf_def GetName_def GetInt_def Get_def)
  show "GlyphToPath accentedGlyphs 1 = Some (Inr (MoveTo 1 2 NewPath))"
    by code_simp
qed




end
